theory Spec2Isabelle
  imports Main "HOL-Library.Sublist"
begin

section \<open>Python values\<close>

text \<open>
  A Python \<open>str\<close> is a sequence of Unicode code points; it is modelled as a list of
  natural numbers. \<open>py ''abc''\<close> is the string of an ASCII literal.
\<close>

type_synonym pystr = "nat list"

abbreviation py :: "string \<Rightarrow> pystr" where
  "py s \<equiv> map of_char s"

text \<open>
  A Python \<open>float\<close> is a finite binary fraction, an infinity or NaN.
  \<open>Finite m e\<close> is the number \<open>m * 2 ^ e\<close>.
\<close>

datatype pyfloat = Finite int int | PosInf | NegInf | NaN

text \<open>The values \<open>json.loads\<close> yields; a dict keeps its insertion order.\<close>

datatype pyval =
    PNone
  | PBool bool
  | PInt int
  | PFloat pyfloat
  | PStr pystr
  | PList "pyval list"
  | PDict "(pystr \<times> pyval) list"

type_synonym pydict = "(pystr \<times> pyval) list"

text \<open>\<open>d.get(k)\<close> and \<open>d.get(k, default)\<close>.\<close>

definition dict_get :: "pydict \<Rightarrow> pystr \<Rightarrow> pyval" where
  "dict_get d k = (case map_of d k of None \<Rightarrow> PNone | Some v \<Rightarrow> v)"

definition dict_get_default :: "pydict \<Rightarrow> pystr \<Rightarrow> pyval \<Rightarrow> pyval" where
  "dict_get_default d k dflt = (case map_of d k of None \<Rightarrow> dflt | Some v \<Rightarrow> v)"

text \<open>\<open>type(val).__name__\<close>.\<close>

fun type_name :: "pyval \<Rightarrow> pystr" where
  "type_name PNone = py ''NoneType''"
| "type_name (PBool _) = py ''bool''"
| "type_name (PInt _) = py ''int''"
| "type_name (PFloat _) = py ''float''"
| "type_name (PStr _) = py ''str''"
| "type_name (PList _) = py ''list''"
| "type_name (PDict _) = py ''dict''"

text \<open>
  The exceptions the modelled code raises or lets through. \<open>CancelledError\<close> is
  \<open>asyncio.CancelledError\<close>, which \<open>except Exception\<close> does not catch;
  \<open>OtherException\<close> is any other subclass of \<open>Exception\<close>, with its \<open>str\<close>.
\<close>

datatype exn =
    ValueError pystr
  | KeyError pyval
  | OverflowError pystr
  | CancelledError
  | OtherException pystr

text \<open>
  \<open>isinstance(val, (int, float))\<close>: \<open>bool\<close> is a subclass of \<open>int\<close>.
\<close>

datatype number = NBool bool | NInt int | NFloat pyfloat

fun as_number :: "pyval \<Rightarrow> number option" where
  "as_number (PBool b) = Some (NBool b)"
| "as_number (PInt i) = Some (NInt i)"
| "as_number (PFloat f) = Some (NFloat f)"
| "as_number _ = None"

text \<open>
  \<open>int(val)\<close> on a number: a float is truncated towards zero; NaN raises
  \<open>ValueError\<close> and an infinity raises \<open>OverflowError\<close>.
\<close>

fun py_int :: "number \<Rightarrow> exn + int" where
  "py_int (NBool b) = Inr (if b then 1 else 0)"
| "py_int (NInt i) = Inr i"
| "py_int (NFloat (Finite m e)) =
     Inr (if 0 \<le> e then m * 2 ^ nat e
          else if 0 \<le> m then m div 2 ^ nat (- e)
          else - ((- m) div 2 ^ nat (- e)))"
| "py_int (NFloat NaN) = Inl (ValueError (py ''cannot convert float NaN to integer''))"
| "py_int (NFloat PosInf) = Inl (OverflowError (py ''cannot convert float infinity to integer''))"
| "py_int (NFloat NegInf) = Inl (OverflowError (py ''cannot convert float infinity to integer''))"

section \<open>String operations\<close>

text \<open>\<open>s.find(sub)\<close>: the index of the first occurrence.\<close>

fun py_find :: "'a list \<Rightarrow> 'a list \<Rightarrow> nat option" where
  "py_find sub [] = (if sub = [] then Some 0 else None)"
| "py_find sub (c # cs) =
     (if prefix sub (c # cs) then Some 0 else map_option Suc (py_find sub cs))"

text \<open>\<open>sub in s\<close>.\<close>

definition py_in :: "'a list \<Rightarrow> 'a list \<Rightarrow> bool" where
  "py_in sub s = (py_find sub s \<noteq> None)"

text \<open>\<open>s.split(sep, 1)\<close> for a non-empty separator.\<close>

definition py_split1 :: "'a list \<Rightarrow> 'a list \<Rightarrow> 'a list list" where
  "py_split1 sep s =
     (case py_find sep s of
        None \<Rightarrow> [s]
      | Some i \<Rightarrow> [take i s, drop (i + length sep) s])"

text \<open>\<open>s.endswith(t)\<close>.\<close>

definition py_endswith :: "'a list \<Rightarrow> 'a list \<Rightarrow> bool" where
  "py_endswith s t = suffix t s"

text \<open>\<open>s.replace(old, new)\<close> for a non-empty \<open>old\<close>: left to right, without overlap.\<close>

function py_replace :: "'a list \<Rightarrow> 'a list \<Rightarrow> 'a list \<Rightarrow> 'a list" where
  "py_replace old new [] = []"
| "py_replace old new (c # cs) =
     (if old \<noteq> [] \<and> prefix old (c # cs)
      then new @ py_replace old new (drop (length old) (c # cs))
      else c # py_replace old new cs)"
  by pat_completeness auto
termination
  by (relation "measure (\<lambda>(old, new, s). length s)") (auto simp: Suc_le_eq)

text \<open>The code points for which \<open>str.isspace\<close> holds; \<open>s.strip()\<close> removes them at both ends.\<close>

definition isspace :: "nat \<Rightarrow> bool" where
  "isspace c = (c \<in> set [9, 10, 11, 12, 13, 28, 29, 30, 31, 32, 133, 160, 5760,
      8192, 8193, 8194, 8195, 8196, 8197, 8198, 8199, 8200, 8201, 8202,
      8232, 8233, 8239, 8287, 12288])"

definition py_strip :: "pystr \<Rightarrow> pystr" where
  "py_strip s = rev (dropWhile isspace (rev (dropWhile isspace s)))"

section \<open>Tool-call mapper (agents/gemini/action_mapper.py)\<close>

text \<open>
  \<open>repr\<close> of a value appears in a message only; it is the parameter \<open>rp\<close>.
\<close>

definition quoted :: "pystr \<Rightarrow> pystr" where
  "quoted key = py [CHR 0x27] @ key @ py [CHR 0x27]"

definition require_int :: "(pyval \<Rightarrow> pystr) \<Rightarrow> pydict \<Rightarrow> pystr \<Rightarrow> exn + int" where
  "require_int rp args key =
     (let val = dict_get args key in
      if val = PNone then
        Inl (ValueError (py ''Missing required argument: '' @ quoted key))
      else case as_number val of
        None \<Rightarrow>
          Inl (ValueError (py ''Expected number for '' @ quoted key @ py '', got ''
                 @ type_name val @ py '': '' @ rp val))
      | Some n \<Rightarrow> py_int n)"

definition require_str :: "(pyval \<Rightarrow> pystr) \<Rightarrow> pydict \<Rightarrow> pystr \<Rightarrow> exn + pystr" where
  "require_str rp args key =
     (let val = dict_get args key in
      if val = PNone then
        Inl (ValueError (py ''Missing required argument: '' @ quoted key))
      else case val of
        PStr s \<Rightarrow> Inr s
      | _ \<Rightarrow>
          Inl (ValueError (py ''Expected string for '' @ quoted key @ py '', got ''
                 @ type_name val @ py '': '' @ rp val)))"

text \<open>Sequencing of calls that may raise: the first exception wins.\<close>

definition and_then :: "exn + 'a \<Rightarrow> ('a \<Rightarrow> exn + 'b) \<Rightarrow> exn + 'b" where
  "and_then r f = (case r of Inl e \<Rightarrow> Inl e | Inr x \<Rightarrow> f x)"

text \<open>The list display \<open>[_require_int(args, k1), _require_int(args, k2)]\<close>.\<close>

definition int_pair :: "(pyval \<Rightarrow> pystr) \<Rightarrow> pydict \<Rightarrow> pystr \<Rightarrow> pystr \<Rightarrow> exn + pyval" where
  "int_pair rp args k1 k2 =
     and_then (require_int rp args k1) (\<lambda>a.
     and_then (require_int rp args k2) (\<lambda>b.
     Inr (PList [PInt a, PInt b])))"

definition do_action :: "string \<Rightarrow> (pystr \<times> pyval) list \<Rightarrow> pydict" where
  "do_action kind fields =
     (py ''_metadata'', PStr (py ''do'')) # (py ''action'', PStr (py kind)) # fields"

definition finish_action :: "pyval \<Rightarrow> pydict" where
  "finish_action msg = [(py ''_metadata'', PStr (py ''finish'')), (py ''message'', msg)]"

definition build_action :: "(pyval \<Rightarrow> pystr) \<Rightarrow> pystr \<Rightarrow> pydict \<Rightarrow> exn + pydict" where
  "build_action rp tool_name args =
     (if tool_name = py ''tap'' then
        and_then (int_pair rp args (py ''x'') (py ''y'')) (\<lambda>el.
        Inr (do_action ''Tap'' [(py ''element'', el)]))
      else if tool_name = py ''double_tap'' then
        and_then (int_pair rp args (py ''x'') (py ''y'')) (\<lambda>el.
        Inr (do_action ''Double Tap'' [(py ''element'', el)]))
      else if tool_name = py ''long_press'' then
        and_then (int_pair rp args (py ''x'') (py ''y'')) (\<lambda>el.
        Inr (do_action ''Long Press'' [(py ''element'', el)]))
      else if tool_name = py ''swipe'' then
        and_then (int_pair rp args (py ''start_x'') (py ''start_y'')) (\<lambda>s.
        and_then (int_pair rp args (py ''end_x'') (py ''end_y'')) (\<lambda>e.
        Inr (do_action ''Swipe'' [(py ''start'', s), (py ''end'', e)])))
      else if tool_name = py ''type_text'' then
        and_then (require_str rp args (py ''text'')) (\<lambda>t.
        Inr (do_action ''Type'' [(py ''text'', PStr t)]))
      else if tool_name = py ''launch_app'' then
        and_then (require_str rp args (py ''app_name'')) (\<lambda>a.
        Inr (do_action ''Launch'' [(py ''app'', PStr a)]))
      else if tool_name = py ''back'' then Inr (do_action ''Back'' [])
      else if tool_name = py ''home'' then Inr (do_action ''Home'' [])
      else if tool_name = py ''wait'' then
        Inr (do_action ''Wait''
               [(py ''duration'', dict_get_default args (py ''duration'') (PStr (py ''1 seconds'')))])
      else Inr (finish_action (PStr (py ''Unknown tool: '' @ tool_name))))"

text \<open>
  \<open>tool_call_to_action\<close> catches \<open>ValueError\<close> and \<open>KeyError\<close> only; \<open>Inl\<close> is an
  exception that leaves the function. \<open>str\<close> of a \<open>KeyError\<close> is the \<open>repr\<close> of its key.
\<close>

definition tool_call_to_action :: "(pyval \<Rightarrow> pystr) \<Rightarrow> pystr \<Rightarrow> pydict \<Rightarrow> exn + pydict" where
  "tool_call_to_action rp tool_name arguments =
     (if tool_name = py ''finish'' then
        Inr (finish_action (dict_get_default arguments (py ''message'') (PStr (py ''Task completed''))))
      else case build_action rp tool_name arguments of
        Inr a \<Rightarrow> Inr a
      | Inl (ValueError m) \<Rightarrow> Inr (finish_action (PStr (py ''Invalid tool call: '' @ m)))
      | Inl (KeyError k) \<Rightarrow> Inr (finish_action (PStr (py ''Invalid tool call: '' @ rp k)))
      | Inl e \<Rightarrow> Inl e)"

section \<open>DSL response splitting (agents/glm/async_agent.py)\<close>

definition parse_raw_response :: "pystr \<Rightarrow> pystr \<times> pystr" where
  "parse_raw_response content =
     (if py_in (py ''finish(message='') content then
        (let parts = py_split1 (py ''finish(message='') content;
             thinking = py_strip (parts ! 0);
             action = py ''finish(message='' @ parts ! 1
         in (thinking, action))
      else if py_in (py ''do(action='') content then
        (let parts = py_split1 (py ''do(action='') content;
             thinking = py_strip (parts ! 0);
             action = py ''do(action='' @ parts ! 1
         in (thinking, action))
      else if py_in (py ''<answer>'') content then
        (let parts = py_split1 (py ''<answer>'') content;
             thinking = py_strip (py_replace (py ''</think>'') []
                          (py_replace (py ''<think>'') [] (parts ! 0)));
             action = py_strip (py_replace (py ''</answer>'') [] (parts ! 1))
         in (thinking, action))
      else ([], content))"

section \<open>Conversation context\<close>

record tool_call =
  tc_id :: pystr
  tc_name :: pystr
  tc_arguments :: pystr

text \<open>
  Modelled from the spec: the message dictionaries that \<open>MessageBuilder\<close>
  (module \<open>AutoGLM_GUI.model\<close>, not among the sources) builds. A ConversationTurn is one
  of system, user, assistant and tool, with text content, an optional image attachment
  (user turns), optional tool-call metadata (assistant turns) and a call id (tool turns).
\<close>

datatype turn =
    SystemTurn pystr
  | UserTurn pystr "pystr option"
  | AssistantTurn pystr "tool_call list"
  | ToolTurn pystr pystr

text \<open>Modelled from the spec: \<open>createUser(text, optionalImage)\<close>.\<close>

definition create_user_message :: "pystr \<Rightarrow> pystr option \<Rightarrow> turn" where
  "create_user_message text_content image_base64 = UserTurn text_content image_base64"

text \<open>Modelled from the spec: \<open>createAssistant(text, optionalToolCalls)\<close>, without tool calls.\<close>

definition create_assistant_message :: "pystr \<Rightarrow> turn" where
  "create_assistant_message text_content = AssistantTurn text_content []"

text \<open>
  Modelled from the spec: \<open>stripImage(turn)\<close>, which removes the image attachment and
  leaves a turn with no image as it is.
\<close>

fun remove_images_from_message :: "turn \<Rightarrow> turn" where
  "remove_images_from_message (UserTurn t img) = UserTurn t None"
| "remove_images_from_message m = m"

fun has_image :: "turn \<Rightarrow> bool" where
  "has_image (UserTurn t (Some img)) = True"
| "has_image m = False"

fun is_user :: "turn \<Rightarrow> bool" where
  "is_user (UserTurn t img) = True"
| "is_user m = False"

text \<open>\<open>xs[-1] = f(xs[-1])\<close>; \<open>None\<close> is the \<open>IndexError\<close> of an empty list.\<close>

definition set_last :: "('a \<Rightarrow> 'a) \<Rightarrow> 'a list \<Rightarrow> 'a list option" where
  "set_last f xs = (if xs = [] then None else Some (butlast xs @ [f (last xs)]))"

text \<open>\<open>str(n)\<close> of a non-negative integer.\<close>

fun str_of_nat :: "nat \<Rightarrow> pystr" where
  "str_of_nat n = (if n < 10 then [48 + n] else str_of_nat (n div 10) @ [48 + n mod 10])"

section \<open>Agent state, events and collaborators\<close>

record screenshot =
  base64_data :: pystr
  width :: int
  height :: int

text \<open>
  Modelled from the spec: \<open>ActionResult\<close> of the action executor (module
  \<open>AutoGLM_GUI.actions\<close>, not among the sources): success, should_finish, message.
\<close>

record action_result =
  ar_success :: bool
  should_finish :: bool
  ar_message :: "pystr option"

text \<open>The fields of \<open>AsyncAgentBase\<close> that the run changes.\<close>

record agent =
  agent_context :: "turn list"
  step_count :: nat
  is_running :: bool
  cancel_event :: bool

text \<open>The \<open>data\<close> of a \<open>step\<close> event; \<open>sd_action = None\<close> is \<open>"action": None\<close>.\<close>

record step_data =
  sd_step :: nat
  sd_thinking :: pystr
  sd_action :: "pydict option"
  sd_success :: bool
  sd_finished :: bool
  sd_message :: pyval

text \<open>
  The events of a run: \<open>thinking\<close> (chunk), \<open>step\<close>, \<open>done\<close> (message, steps, success),
  \<open>error\<close> (message) and \<open>cancelled\<close> (message).
\<close>

datatype event =
    Thinking pystr
  | Step step_data
  | Done pyval nat bool
  | Error pystr
  | Cancelled pystr

text \<open>
  The places where a run is suspended and another task can call \<open>cancel()\<close>: each
  \<open>await\<close> (with the step number, and the chunk index for the model stream) and each
  \<open>yield\<close> of an event to the consumer.
\<close>

datatype point =
    AwaitInitScreenshot
  | AwaitInitCurrentApp
  | AwaitScreenshot nat
  | AwaitCurrentApp nat
  | AwaitCreate nat
  | AwaitChunk nat nat
  | AwaitClose nat
  | AwaitExecScreenshot nat
  | AwaitExecute nat
  | Yielded event

text \<open>A chunk of the streamed completion: no choices, or the delta's content.\<close>

datatype chunk = NoChoices | Delta "pystr option"

text \<open>
  What the streaming endpoint does in one call: \<open>create\<close> raises, or the stream delivers
  chunks and then ends or raises.
\<close>

datatype openai_stream = CreateFails pystr | Chunks "chunk list" "pystr option"

text \<open>The message of a non-streaming completion: content, and tool calls (name, arguments).\<close>

record completion =
  cm_content :: "pystr option"
  cm_tool_calls :: "(pystr \<times> pystr) list"

datatype agent_kind = GLM | Gemini

text \<open>
  The collaborators of a run. A call that raises an \<open>Exception\<close> returns \<open>Inl\<close> of its
  \<open>str\<close>. The device and the executor are asked at a suspension point, the model at a step
  with the context it is sent. \<open>parse\<close> is \<open>GLMParser.parse\<close> and \<open>execute\<close> is
  \<open>ActionHandler.execute\<close> (neither is among the sources); \<open>cancel_at\<close> tells at which
  suspension points \<open>cancel()\<close> is called.
\<close>

record env =
  agent_type :: agent_kind
  max_steps :: int
  cancel_at :: "point \<Rightarrow> bool"
  get_screenshot :: "point \<Rightarrow> pystr + screenshot"
  get_current_app :: "point \<Rightarrow> pystr + pystr"
  build_screen_info :: "pystr \<Rightarrow> pystr"
  chat_stream :: "nat \<Rightarrow> turn list \<Rightarrow> openai_stream"
  parse :: "pystr \<Rightarrow> exn + pydict"
  chat_tools :: "nat \<Rightarrow> turn list \<Rightarrow> pystr + completion"
  json_loads :: "pystr \<Rightarrow> pyval option"
  json_dumps :: "pyval \<Rightarrow> pystr"
  repr :: "pyval \<Rightarrow> pystr"
  execute :: "nat \<Rightarrow> pydict \<Rightarrow> int \<Rightarrow> int \<Rightarrow> pystr + action_result"

section \<open>Cancellation and event emission (agents/base/async_agent_base.py)\<close>

definition cancel :: "agent \<Rightarrow> agent" where
  "cancel st = st\<lparr>cancel_event := True, is_running := False\<rparr>"

definition suspend :: "env \<Rightarrow> point \<Rightarrow> agent \<Rightarrow> agent" where
  "suspend env p st = (if cancel_at env p then cancel st else st)"

text \<open>A generator so far: the events it has yielded and the agent's state.\<close>

type_synonym gen = "event list \<times> agent"

definition yield :: "env \<Rightarrow> event \<Rightarrow> gen \<Rightarrow> gen" where
  "yield env ev g = (fst g @ [ev], suspend env (Yielded ev) (snd g))"

text \<open>
  The \<open>error\<close> event and the terminal \<open>step\<close> event of a device or model failure.
\<close>

definition failure_step :: "nat \<Rightarrow> pystr \<Rightarrow> event" where
  "failure_step n msg =
     Step \<lparr>sd_step = n, sd_thinking = [], sd_action = None, sd_success = False,
           sd_finished = True, sd_message = PStr msg\<rparr>"

definition step_failure :: "env \<Rightarrow> nat \<Rightarrow> pystr \<Rightarrow> gen \<Rightarrow> gen" where
  "step_failure env n msg g = yield env (failure_step n msg) (yield env (Error msg) g)"

text \<open>
  \<open>get_screenshot\<close> and \<open>get_current_app\<close> of a step, each awaited in a thread.
\<close>

definition observe :: "env \<Rightarrow> nat \<Rightarrow> agent \<Rightarrow> (pystr + screenshot \<times> pystr) \<times> agent" where
  "observe env n st =
     (let st1 = suspend env (AwaitScreenshot n) st in
      case get_screenshot env (AwaitScreenshot n) of
        Inl e \<Rightarrow> (Inl e, st1)
      | Inr shot \<Rightarrow>
          (let st2 = suspend env (AwaitCurrentApp n) st1 in
           (case get_current_app env (AwaitCurrentApp n) of
              Inl e \<Rightarrow> (Inl e, st2)
            | Inr app \<Rightarrow> (Inr (shot, app), st2))))"

text \<open>\<open>result.message or action.get("message")\<close>.\<close>

definition step_message :: "action_result \<Rightarrow> pydict \<Rightarrow> pyval" where
  "step_message result action =
     (case ar_message result of
        Some m \<Rightarrow> if m \<noteq> [] then PStr m else dict_get action (py ''message'')
      | None \<Rightarrow> dict_get action (py ''message''))"

text \<open>The result that replaces an exception of the executor.\<close>

definition failed_result :: "pystr \<Rightarrow> action_result" where
  "failed_result e = \<lparr>ar_success = False, should_finish = True, ar_message = Some e\<rparr>"

text \<open>\<open>action.get("_metadata") == "finish"\<close>.\<close>

definition is_finish :: "pydict \<Rightarrow> bool" where
  "is_finish action = (dict_get action (py ''_metadata'') = PStr (py ''finish''))"

text \<open>
  The \<open>step\<close> event that ends a step in which an action was executed, with the finish
  check \<open>action.get("_metadata") == "finish" or result.should_finish\<close>.
\<close>

definition action_step :: "nat \<Rightarrow> pystr \<Rightarrow> pydict \<Rightarrow> action_result \<Rightarrow> event" where
  "action_step n thinking action result =
     Step \<lparr>sd_step = n, sd_thinking = thinking, sd_action = Some action,
           sd_success = ar_success result,
           sd_finished = (is_finish action \<or> should_finish result),
           sd_message = step_message result action\<rparr>"

section \<open>The GLM step (agents/glm/async_agent.py)\<close>

text \<open>What \<open>_stream_openai\<close> yields: raw content and thinking content.\<close>

datatype chunk_data = RawData pystr | ThinkingData pystr

definition action_markers :: "pystr list" where
  "action_markers = [py ''finish(message='', py ''do(action='']"

text \<open>Whether the buffer ends with a proper, non-empty prefix of a marker.\<close>

definition is_potential_marker :: "pystr \<Rightarrow> bool" where
  "is_potential_marker buffer =
     list_ex (\<lambda>marker. list_ex (\<lambda>i. py_endswith buffer (take i marker)) [1..<length marker])
       action_markers"

text \<open>
  The body of \<open>_stream_openai\<close>'s loop for a chunk with content: what it yields, the new
  buffer and the new \<open>in_action_phase\<close>.
\<close>

definition process_delta :: "pystr \<Rightarrow> bool \<Rightarrow> pystr \<Rightarrow> chunk_data list \<times> pystr \<times> bool" where
  "process_delta buffer in_action_phase content =
     (if in_action_phase then ([RawData content], buffer, True)
      else
        (let buffer = buffer @ content in
         (case find (\<lambda>marker. py_in marker buffer) action_markers of
            Some marker \<Rightarrow>
              ([RawData content, ThinkingData (py_split1 marker buffer ! 0)], buffer, True)
          | None \<Rightarrow>
              if \<not> is_potential_marker buffer \<and> length buffer > 0
              then ([RawData content, ThinkingData buffer], [], False)
              else ([RawData content], buffer, False))))"

text \<open>
  The body of \<open>_execute_step\<close>'s loop over what \<open>_stream_openai\<close> yields, with the
  accumulators \<open>thinking_parts\<close> and \<open>raw_content\<close>. \<open>True\<close>: it raised \<open>CancelledError\<close>.
\<close>

fun consume :: "env \<Rightarrow> chunk_data list \<Rightarrow> pystr list \<times> pystr \<Rightarrow> gen
                  \<Rightarrow> bool \<times> (pystr list \<times> pystr) \<times> gen" where
  "consume env [] acc g = (False, acc, g)"
| "consume env (d # ds) acc g =
     (if cancel_event (snd g) then (True, acc, g)
      else (case d of
              ThinkingData c \<Rightarrow>
                consume env ds (fst acc @ [c], snd acc) (yield env (Thinking c) g)
            | RawData c \<Rightarrow> consume env ds (fst acc, snd acc @ c) g))"

datatype llm_outcome = LLMDone | LLMCancelled | LLMFailed pystr

text \<open>
  \<open>_stream_openai\<close> run by \<open>_execute_step\<close>, from chunk \<open>i\<close> of step \<open>n\<close>: each chunk is
  awaited, the cancel flag is checked, the chunk is processed and what it yields is
  consumed. \<open>err\<close> is the exception the stream raises after its last chunk, if any. The
  stream is closed in the \<open>finally\<close> clause.
\<close>

fun stream_chunks :: "env \<Rightarrow> nat \<Rightarrow> nat \<Rightarrow> chunk list \<Rightarrow> pystr option \<Rightarrow> pystr \<Rightarrow> bool
                        \<Rightarrow> pystr list \<times> pystr \<Rightarrow> gen
                        \<Rightarrow> llm_outcome \<times> (pystr list \<times> pystr) \<times> gen" where
  "stream_chunks env n i [] err buffer in_action_phase acc g =
     (let st = suspend env (AwaitChunk n i) (snd g);
          st = suspend env (AwaitClose n) st
      in ((case err of Some e \<Rightarrow> LLMFailed e | None \<Rightarrow> LLMDone), acc, (fst g, st)))"
| "stream_chunks env n i (c # cs) err buffer in_action_phase acc g =
     (let st = suspend env (AwaitChunk n i) (snd g) in
      if cancel_event st then
        (LLMCancelled, acc, (fst g, suspend env (AwaitClose n) (suspend env (AwaitClose n) st)))
      else
        (case c of
           NoChoices \<Rightarrow> stream_chunks env n (Suc i) cs err buffer in_action_phase acc (fst g, st)
         | Delta None \<Rightarrow> stream_chunks env n (Suc i) cs err buffer in_action_phase acc (fst g, st)
         | Delta (Some content) \<Rightarrow>
             (case process_delta buffer in_action_phase content of
                (ds, buffer', in_action_phase') \<Rightarrow>
                  (case consume env ds acc (fst g, st) of
                     (True, acc', g') \<Rightarrow>
                       (LLMCancelled, acc', (fst g', suspend env (AwaitClose n) (snd g')))
                   | (False, acc', g') \<Rightarrow>
                       stream_chunks env n (Suc i) cs err buffer' in_action_phase' acc' g'))))"

text \<open>The model call of step \<open>n\<close>: \<open>create\<close> is awaited, then the stream is read.\<close>

definition stream_openai :: "env \<Rightarrow> nat \<Rightarrow> gen \<Rightarrow> llm_outcome \<times> (pystr list \<times> pystr) \<times> gen" where
  "stream_openai env n g =
     (let st = suspend env (AwaitCreate n) (snd g) in
      (case chat_stream env n (agent_context st) of
         CreateFails e \<Rightarrow> (LLMFailed e, ([], []), (fst g, st))
       | Chunks cs err \<Rightarrow> stream_chunks env n 0 cs err [] False ([], []) (fst g, st)))"

text \<open>
  Step 4 of \<open>_execute_step\<close>: the action string of the raw response is parsed; a
  \<open>ValueError\<close> of the parser makes the action a finish with the action string as message.
\<close>

definition glm_parse_action :: "env \<Rightarrow> pystr \<Rightarrow> exn + pydict" where
  "glm_parse_action env raw_content =
     (let action_str = snd (parse_raw_response raw_content) in
      (case parse env action_str of
         Inr a \<Rightarrow> Inr a
       | Inl (ValueError m) \<Rightarrow> Inr (finish_action (PStr action_str))
       | Inl e \<Rightarrow> Inl e))"

text \<open>The executor's result; an exception of the executor becomes a failed result.\<close>

definition run_executor :: "env \<Rightarrow> nat \<Rightarrow> pydict \<Rightarrow> int \<Rightarrow> int \<Rightarrow> action_result" where
  "run_executor env n action w h =
     (case execute env n action w h of
        Inr r \<Rightarrow> r
      | Inl e \<Rightarrow> failed_result e)"

text \<open>
  Steps 4 to 8 of \<open>_execute_step\<close>: parse the action, execute it, update the context,
  yield the \<open>step\<close> event. The result is the generator and the exception that left it.
\<close>

definition glm_act :: "env \<Rightarrow> nat \<Rightarrow> screenshot \<Rightarrow> pystr \<Rightarrow> pystr \<Rightarrow> gen
                         \<Rightarrow> event list \<times> agent \<times> exn option" where
  "glm_act env n shot thinking raw_content g =
     (case glm_parse_action env raw_content of
        Inl e \<Rightarrow> (fst g, snd g, Some e)
      | Inr action \<Rightarrow>
          (let st = suspend env (AwaitExecute n) (snd g);
               result = run_executor env n action (width shot) (height shot)
           in (case set_last remove_images_from_message (agent_context st) of
                 None \<Rightarrow> (fst g, st, Some (OtherException (py ''IndexError'')))
               | Some c \<Rightarrow>
                   (let st' = st\<lparr>agent_context := c @ [create_assistant_message
                                 (py ''<think>'' @ thinking @ py ''</think><answer>''
                                  @ snd (parse_raw_response raw_content) @ py ''</answer>'')]\<rparr>;
                        g' = yield env (action_step n thinking action result) (fst g, st')
                    in (fst g', snd g', None)))))"

definition glm_execute_step :: "env \<Rightarrow> agent \<Rightarrow> event list \<times> agent \<times> exn option" where
  "glm_execute_step env st0 =
     (let st = st0\<lparr>step_count := step_count st0 + 1\<rparr>;
          n = step_count st
      in (case observe env n st of
            (Inl e, st) \<Rightarrow>
              (let g = step_failure env n (py ''Device error: '' @ e) ([], st)
               in (fst g, snd g, None))
          | (Inr (shot, app), st) \<Rightarrow>
              (let text_content = py ''** Screen Info **'' @ [10, 10] @ build_screen_info env app;
                   st = st\<lparr>agent_context := agent_context st
                           @ [create_user_message text_content (Some (base64_data shot))]\<rparr>
               in (case stream_openai env n ([], st) of
                     (LLMCancelled, acc, g) \<Rightarrow> (fst g, snd g, Some CancelledError)
                   | (LLMFailed e, acc, g) \<Rightarrow>
                       (let g = step_failure env n (py ''Model error: '' @ e) g
                        in (fst g, snd g, None))
                   | (LLMDone, acc, g) \<Rightarrow>
                       glm_act env n shot (concat (fst acc)) (snd acc) g))))"

definition glm_prepare_initial_context :: "env \<Rightarrow> pystr \<Rightarrow> pystr \<Rightarrow> pystr \<Rightarrow> agent \<Rightarrow> agent" where
  "glm_prepare_initial_context env task screenshot_base64 current_app st =
     (let screen_info = build_screen_info env current_app;
          initial_message = task @ [10, 10] @ py ''** Screen Info **'' @ [10, 10] @ screen_info
      in st\<lparr>agent_context := agent_context st
              @ [create_user_message initial_message (Some screenshot_base64)]\<rparr>)"

section \<open>The Gemini step (agents/gemini/async_agent.py)\<close>

datatype tools_outcome = ToolsCancelled | ToolsFailed pystr | ToolsCall pystr pystr pyval

text \<open>
  \<open>_call_llm_with_tools\<close>: thinking, tool name and tool arguments. Arguments that are not
  JSON become the empty dict; no tool call becomes \<open>finish\<close>.
\<close>

definition call_llm_with_tools :: "env \<Rightarrow> nat \<Rightarrow> agent \<Rightarrow> tools_outcome \<times> agent" where
  "call_llm_with_tools env n st0 =
     (if cancel_event st0 then (ToolsCancelled, st0)
      else
        (let st = suspend env (AwaitCreate n) st0 in
         (case chat_tools env n (agent_context st) of
            Inl e \<Rightarrow> (ToolsFailed e, st)
          | Inr message \<Rightarrow>
              (let thinking = (case cm_content message of None \<Rightarrow> [] | Some c \<Rightarrow> c) in
               (case cm_tool_calls message of
                  (tool_name, arguments) # rest \<Rightarrow>
                    (ToolsCall thinking tool_name
                       (case json_loads env arguments of None \<Rightarrow> PDict [] | Some v \<Rightarrow> v), st)
                | [] \<Rightarrow>
                    (ToolsCall thinking (py ''finish'')
                       (PDict [(py ''message'',
                          PStr (if thinking \<noteq> [] then thinking else py ''No action returned''))]),
                     st))))))"

text \<open>
  \<open>tool_call_to_action\<close> on whatever \<open>json.loads\<close> returned: a value that is not a dict
  has no \<open>get\<close>, so every branch that reads an argument raises \<open>AttributeError\<close>.
\<close>

definition tool_call_to_action_any :: "(pyval \<Rightarrow> pystr) \<Rightarrow> pystr \<Rightarrow> pyval \<Rightarrow> exn + pydict" where
  "tool_call_to_action_any rp tool_name tool_args =
     (case tool_args of
        PDict d \<Rightarrow> tool_call_to_action rp tool_name d
      | v \<Rightarrow>
          if tool_name \<in> set (map py [''finish'', ''tap'', ''double_tap'', ''long_press'', ''swipe'',
                                       ''type_text'', ''launch_app'', ''wait''])
          then Inl (OtherException (quoted (type_name v) @ py '' object has no attribute ''
                      @ quoted (py ''get'')))
          else tool_call_to_action rp tool_name [])"

text \<open>
  Step 4 of \<open>_execute_step\<close>: a screenshot for its size, then the executor. An exception of
  either becomes a failed result.
\<close>

definition gemini_execute_action :: "env \<Rightarrow> nat \<Rightarrow> pydict \<Rightarrow> agent \<Rightarrow> action_result \<times> agent" where
  "gemini_execute_action env n action st =
     (let st1 = suspend env (AwaitExecScreenshot n) st in
      (case get_screenshot env (AwaitExecScreenshot n) of
         Inl e \<Rightarrow> (failed_result e, st1)
       | Inr shot \<Rightarrow>
           (run_executor env n action (width shot) (height shot),
            suspend env (AwaitExecute n) st1)))"

text \<open>
  Step 5 of \<open>_execute_step\<close>: strip the image of the last turn when the context has more
  than one turn, then append the assistant turn with its tool call and the tool turn.
\<close>

definition gemini_update_context :: "env \<Rightarrow> nat \<Rightarrow> pystr \<Rightarrow> pystr \<Rightarrow> pyval \<Rightarrow> action_result
                                       \<Rightarrow> turn list \<Rightarrow> turn list" where
  "gemini_update_context env n thinking tool_name tool_args result c =
     (let c1 = (if length c > 1 then butlast c @ [remove_images_from_message (last c)] else c);
          call_id = py ''call_'' @ str_of_nat n
      in c1
         @ [AssistantTurn thinking
              [\<lparr>tc_id = call_id, tc_name = tool_name, tc_arguments = json_dumps env tool_args\<rparr>]]
         @ [ToolTurn call_id
              (json_dumps env (PDict
                 [(py ''success'', PBool (ar_success result)),
                  (py ''message'',
                   PStr (case ar_message result of
                           Some m \<Rightarrow> if m \<noteq> [] then m else py ''OK''
                         | None \<Rightarrow> py ''OK''))]))])"

text \<open>
  Steps 3 to 6 of \<open>_execute_step\<close>: map the tool call, execute, update the context, yield
  the \<open>step\<close> event.
\<close>

definition gemini_act :: "env \<Rightarrow> nat \<Rightarrow> pystr \<Rightarrow> pystr \<Rightarrow> pyval \<Rightarrow> gen
                            \<Rightarrow> event list \<times> agent \<times> exn option" where
  "gemini_act env n thinking tool_name tool_args g =
     (case tool_call_to_action_any (repr env) tool_name tool_args of
        Inl e \<Rightarrow> (fst g, snd g, Some e)
      | Inr action \<Rightarrow>
          (case gemini_execute_action env n action (snd g) of
             (result, st) \<Rightarrow>
               (let st' = st\<lparr>agent_context :=
                            gemini_update_context env n thinking tool_name tool_args result
                              (agent_context st)\<rparr>;
                    g' = yield env (action_step n thinking action result) (fst g, st')
                in (fst g', snd g', None))))"

text \<open>
  Step 1 of \<open>_execute_step\<close>: from the second step on, observe the device and append the
  observation as a user turn. \<open>Some e\<close> is the device's exception.
\<close>

definition gemini_observe :: "env \<Rightarrow> nat \<Rightarrow> agent \<Rightarrow> pystr option \<times> agent" where
  "gemini_observe env n st =
     (if n > 1 then
        (case observe env n st of
           (Inl e, st') \<Rightarrow> (Some e, st')
         | (Inr (shot, app), st') \<Rightarrow>
             (None, st'\<lparr>agent_context := agent_context st'
                      @ [create_user_message (py ''Current app: '' @ app)
                           (Some (base64_data shot))]\<rparr>))
      else (None, st))"

definition gemini_execute_step :: "env \<Rightarrow> agent \<Rightarrow> event list \<times> agent \<times> exn option" where
  "gemini_execute_step env st0 =
     (let st = st0\<lparr>step_count := step_count st0 + 1\<rparr>;
          n = step_count st
      in (case gemini_observe env n st of
            (Some e, st) \<Rightarrow>
              (let g = step_failure env n (py ''Device error: '' @ e) ([], st)
               in (fst g, snd g, None))
          | (None, st) \<Rightarrow>
              (case call_llm_with_tools env n st of
                 (ToolsCancelled, st) \<Rightarrow> ([], st, Some CancelledError)
               | (ToolsFailed e, st) \<Rightarrow>
                   (let g = step_failure env n (py ''Model error: '' @ e) ([], st)
                    in (fst g, snd g, None))
               | (ToolsCall thinking tool_name tool_args, st) \<Rightarrow>
                   gemini_act env n thinking tool_name tool_args
                     (if thinking \<noteq> [] then yield env (Thinking thinking) ([], st) else ([], st)))))"

definition gemini_prepare_initial_context :: "pystr \<Rightarrow> pystr \<Rightarrow> pystr \<Rightarrow> agent \<Rightarrow> agent" where
  "gemini_prepare_initial_context task screenshot_base64 current_app st =
     st\<lparr>agent_context := agent_context st
         @ [create_user_message (task @ [10, 10] @ py ''Current app: '' @ current_app)
              (Some screenshot_base64)]\<rparr>"

section \<open>The run (agents/base/async_agent_base.py)\<close>

text \<open>The abstract methods, dispatched on the agent's class.\<close>

definition execute_step :: "env \<Rightarrow> agent \<Rightarrow> event list \<times> agent \<times> exn option" where
  "execute_step env st =
     (case agent_type env of
        GLM \<Rightarrow> glm_execute_step env st
      | Gemini \<Rightarrow> gemini_execute_step env st)"

definition prepare_initial_context :: "env \<Rightarrow> pystr \<Rightarrow> pystr \<Rightarrow> pystr \<Rightarrow> agent \<Rightarrow> agent" where
  "prepare_initial_context env task screenshot_base64 current_app st =
     (case agent_type env of
        GLM \<Rightarrow> glm_prepare_initial_context env task screenshot_base64 current_app st
      | Gemini \<Rightarrow> gemini_prepare_initial_context task screenshot_base64 current_app st)"

text \<open>
  The events of a step up to its first \<open>step\<close> event with \<open>finished\<close> set, and that
  event's data: \<open>stream\<close> returns there.
\<close>

fun split_finished :: "event list \<Rightarrow> (event list \<times> step_data) option" where
  "split_finished [] = None"
| "split_finished (Step sd # evs) =
     (if sd_finished sd then Some ([Step sd], sd)
      else map_option (\<lambda>(p, d). (Step sd # p, d)) (split_finished evs))"
| "split_finished (ev # evs) = map_option (\<lambda>(p, d). (ev # p, d)) (split_finished evs)"

text \<open>
  The \<open>while\<close> loop of \<open>stream\<close>. In both agents the \<open>step\<close> event is the last thing a step
  does, so the state at the early return is the state the step ends in.
\<close>

function run_loop :: "env \<Rightarrow> gen \<Rightarrow> event list \<times> agent \<times> exn option" where
  "run_loop env g =
     (if int (step_count (snd g)) < max_steps env \<and> is_running (snd g) then
        (if cancel_event (snd g) then (fst g, snd g, Some CancelledError)
         else
           (case execute_step env (snd g) of
              (evs, st, r) \<Rightarrow>
                (case split_finished evs of
                   Some (shown, sd) \<Rightarrow>
                     (let g' = yield env (Done (sd_message sd) (step_count st) (sd_success sd))
                                 (fst g @ shown, st)
                      in (fst g', snd g', None))
                 | None \<Rightarrow>
                     (case r of
                        Some e \<Rightarrow> (fst g @ evs, st, Some e)
                      | None \<Rightarrow> run_loop env (fst g @ evs, st)))))
      else
        (let g' = yield env (Done (PStr (py ''Max steps reached'')) (step_count (snd g)) False) g
         in (fst g', snd g', None)))"
  by pat_completeness auto

text \<open>Every step increases the step count by one, so the loop ends.\<close>

lemma cancel_step_count [simp]: "step_count (cancel st) = step_count st"
  by (simp add: cancel_def)

lemma suspend_step_count [simp]: "step_count (suspend env p st) = step_count st"
  by (simp add: suspend_def)

lemma yield_step_count [simp]: "step_count (snd (yield env ev g)) = step_count (snd g)"
  by (simp add: yield_def)

lemma step_failure_step_count [simp]:
  "step_count (snd (step_failure env n msg g)) = step_count (snd g)"
  by (simp add: step_failure_def)

lemma observe_step_count: "observe env n st = (r, st') \<Longrightarrow> step_count st' = step_count st"
  by (auto simp: observe_def Let_def split: sum.splits)

lemma consume_step_count:
  "consume env ds acc g = (b, acc', g') \<Longrightarrow> step_count (snd g') = step_count (snd g)"
  by (induction ds arbitrary: acc g) (auto split: chunk_data.splits if_splits)

lemma stream_chunks_step_count:
  "stream_chunks env n i cs err buffer ph acc g = (oc, acc', g')
   \<Longrightarrow> step_count (snd g') = step_count (snd g)"
proof (induction cs arbitrary: i buffer ph acc g)
  case Nil
  then show ?case by (auto simp: Let_def)
next
  case (Cons c cs)
  show ?case
  proof (cases "cancel_event (suspend env (AwaitChunk n i) (snd g))")
    case True
    with Cons.prems show ?thesis by (auto simp: Let_def)
  next
    case False
    note nc = this
    show ?thesis
    proof (cases c)
      case NoChoices
      with Cons.prems nc have
        "stream_chunks env n (Suc i) cs err buffer ph acc (fst g, suspend env (AwaitChunk n i) (snd g))
           = (oc, acc', g')"
        by (simp add: Let_def)
      from Cons.IH [OF this] show ?thesis by simp
    next
      case (Delta co)
      show ?thesis
      proof (cases co)
        case None
        with Delta Cons.prems nc have
          "stream_chunks env n (Suc i) cs err buffer ph acc (fst g, suspend env (AwaitChunk n i) (snd g))
             = (oc, acc', g')"
          by (simp add: Let_def)
        from Cons.IH [OF this] show ?thesis by simp
      next
        case (Some content)
        obtain ds b' p' where pd: "process_delta buffer ph content = (ds, b', p')"
          by (cases "process_delta buffer ph content")
        obtain cb acc1 g1 where
          cs: "consume env ds acc (fst g, suspend env (AwaitChunk n i) (snd g)) = (cb, acc1, g1)"
          by (cases "consume env ds acc (fst g, suspend env (AwaitChunk n i) (snd g))")
        have g1: "step_count (snd g1) = step_count (snd g)"
          using consume_step_count [OF cs] by simp
        show ?thesis
        proof (cases cb)
          case True
          with Cons.prems nc Delta Some pd cs g1 show ?thesis by (auto simp: Let_def)
        next
          case False
          with Cons.prems nc Delta Some pd cs have
            "stream_chunks env n (Suc i) cs err b' p' acc1 g1 = (oc, acc', g')"
            by (simp add: Let_def)
          from Cons.IH [OF this] g1 show ?thesis by simp
        qed
      qed
    qed
  qed
qed

lemma stream_openai_step_count:
  "stream_openai env n g = (oc, acc, g') \<Longrightarrow> step_count (snd g') = step_count (snd g)"
  by (auto simp: stream_openai_def Let_def split: openai_stream.splits
           dest: stream_chunks_step_count)

lemma glm_act_step_count:
  "glm_act env n shot thinking raw g = (evs, st, r) \<Longrightarrow> step_count st = step_count (snd g)"
  by (auto simp: glm_act_def Let_def split: sum.splits option.splits)

lemma glm_execute_step_count:
  "glm_execute_step env st = (evs, st', r) \<Longrightarrow> step_count st' = Suc (step_count st)"
proof -
  assume a: "glm_execute_step env st = (evs, st', r)"
  let ?st = "st\<lparr>step_count := step_count st + 1\<rparr>"
  let ?n = "Suc (step_count st)"
  obtain ob st1 where o: "observe env ?n ?st = (ob, st1)"
    by (cases "observe env ?n ?st")
  have s1: "step_count st1 = ?n"
    using observe_step_count [OF o] by simp
  show ?thesis
  proof (cases ob)
    case (Inl e)
    with a o s1 show ?thesis by (auto simp: glm_execute_step_def Let_def)
  next
    case (Inr p)
    obtain shot app where p: "p = (shot, app)" by (cases p)
    let ?g = "([], st1\<lparr>agent_context := agent_context st1 @
        [create_user_message (py ''** Screen Info **'' @ [10, 10] @ build_screen_info env app)
           (Some (base64_data shot))]\<rparr>)"
    obtain oc acc g where so: "stream_openai env ?n ?g = (oc, acc, g)"
      by (cases "stream_openai env ?n ?g")
    have s2: "step_count (snd g) = ?n"
      using stream_openai_step_count [OF so] s1 by simp
    show ?thesis
    proof (cases oc)
      case LLMDone
      with a o Inr p so have "glm_act env ?n shot (concat (fst acc)) (snd acc) g = (evs, st', r)"
        by (simp add: glm_execute_step_def Let_def)
      from glm_act_step_count [OF this] s2 show ?thesis by simp
    next
      case LLMCancelled
      with a o Inr p so s2 show ?thesis by (auto simp: glm_execute_step_def Let_def)
    next
      case (LLMFailed e)
      with a o Inr p so s2 show ?thesis by (auto simp: glm_execute_step_def Let_def)
    qed
  qed
qed

lemma call_llm_step_count:
  "call_llm_with_tools env n st = (oc, st') \<Longrightarrow> step_count st' = step_count st"
  by (auto simp: call_llm_with_tools_def Let_def split: sum.splits list.splits if_splits)

lemma gemini_execute_action_step_count:
  "gemini_execute_action env n action st = (result, st') \<Longrightarrow> step_count st' = step_count st"
  by (auto simp: gemini_execute_action_def Let_def split: sum.splits)

lemma gemini_act_step_count:
  "gemini_act env n thinking tool_name tool_args g = (evs, st, r)
   \<Longrightarrow> step_count st = step_count (snd g)"
  by (auto simp: gemini_act_def Let_def split: sum.splits prod.splits
           dest: gemini_execute_action_step_count)

lemma gemini_observe_step_count:
  "gemini_observe env n st = (r, st') \<Longrightarrow> step_count st' = step_count st"
  by (auto simp: gemini_observe_def split: if_splits prod.splits sum.splits
           dest: observe_step_count)

lemma gemini_execute_step_count:
  "gemini_execute_step env st = (evs, st', r) \<Longrightarrow> step_count st' = Suc (step_count st)"
proof -
  assume a: "gemini_execute_step env st = (evs, st', r)"
  let ?st = "st\<lparr>step_count := step_count st + 1\<rparr>"
  let ?n = "Suc (step_count st)"
  obtain ob s where o: "gemini_observe env ?n ?st = (ob, s)"
    by (cases "gemini_observe env ?n ?st")
  have s: "step_count s = ?n" using gemini_observe_step_count [OF o] by simp
  show ?thesis
  proof (cases ob)
    case (Some e)
    with a o s show ?thesis
      by (simp add: gemini_execute_step_def Let_def) (metis step_failure_step_count snd_conv)
  next
    case None
    obtain oc s2 where c: "call_llm_with_tools env ?n s = (oc, s2)"
      by (cases "call_llm_with_tools env ?n s")
    have s2: "step_count s2 = ?n" using call_llm_step_count [OF c] s by simp
    show ?thesis
    proof (cases oc)
      case ToolsCancelled
      with a o None c s2 show ?thesis by (simp add: gemini_execute_step_def Let_def)
    next
      case (ToolsFailed e)
      with a o None c s2 show ?thesis
        by (simp add: gemini_execute_step_def Let_def) (metis step_failure_step_count snd_conv)
    next
      case (ToolsCall thinking tool_name tool_args)
      with a o None c have "gemini_act env ?n thinking tool_name tool_args
          (if thinking \<noteq> [] then yield env (Thinking thinking) ([], s2) else ([], s2))
          = (evs, st', r)"
        by (simp add: gemini_execute_step_def Let_def)
      from gemini_act_step_count [OF this] s2 show ?thesis by simp
    qed
  qed
qed

lemma execute_step_count:
  "execute_step env st = (evs, st', r) \<Longrightarrow> step_count st' = Suc (step_count st)"
  by (cases "agent_type env")
     (simp_all add: execute_step_def glm_execute_step_count gemini_execute_step_count)

termination run_loop
  apply (relation "measure (\<lambda>(env, g). nat (max_steps env - int (step_count (snd g))))")
   apply simp
  apply (auto dest!: sym [THEN execute_step_count])
  done

declare run_loop.simps [simp del]

text \<open>The first observation of \<open>stream\<close>, before the loop.\<close>

definition observe_initial :: "env \<Rightarrow> agent \<Rightarrow> (pystr + screenshot \<times> pystr) \<times> agent" where
  "observe_initial env st =
     (let st1 = suspend env AwaitInitScreenshot st in
      (case get_screenshot env AwaitInitScreenshot of
         Inl e \<Rightarrow> (Inl e, st1)
       | Inr shot \<Rightarrow>
           (let st2 = suspend env AwaitInitCurrentApp st1 in
            (case get_current_app env AwaitInitCurrentApp of
               Inl e \<Rightarrow> (Inl e, st2)
             | Inr app \<Rightarrow> (Inr (shot, app), st2)))))"

text \<open>
  \<open>stream(task)\<close>: the events yielded, the agent afterwards, and the exception that left
  the generator (\<open>CancelledError\<close> is re-raised after the \<open>cancelled\<close> event). The
  \<open>finally\<close> clause clears \<open>is_running\<close>.
\<close>

definition stream :: "env \<Rightarrow> pystr \<Rightarrow> agent \<Rightarrow> event list \<times> agent \<times> exn option" where
  "stream env task st0 =
     (case observe_initial env (st0\<lparr>is_running := True, cancel_event := False\<rparr>) of
        (Inl e, st) \<Rightarrow>
          (let g = yield env (Error (py ''Device error: '' @ e)) ([], st);
               g = yield env (Done (PStr (py ''Device error: '' @ e)) 0 False) g
           in (fst g, (snd g)\<lparr>is_running := False\<rparr>, None))
      | (Inr (shot, app), st) \<Rightarrow>
          (case run_loop env ([], prepare_initial_context env task (base64_data shot) app st) of
             (evs, st', r) \<Rightarrow>
               (case r of
                  Some CancelledError \<Rightarrow>
                    (let g = yield env (Cancelled (py ''Task cancelled by user'')) (evs, st')
                     in (fst g, (snd g)\<lparr>is_running := False\<rparr>, Some CancelledError))
                | _ \<Rightarrow> (evs, st'\<lparr>is_running := False\<rparr>, r))))"

text \<open>A fresh agent: the context is the system turn alone.\<close>

definition new_agent :: "pystr \<Rightarrow> agent" where
  "new_agent system_prompt =
     \<lparr>agent_context = [SystemTurn system_prompt], step_count = 0, is_running = False,
      cancel_event = False\<rparr>"

section \<open>The dual-model coordinator (dual_model/dual_agent.py)\<close>

text \<open>
  Modelled from the spec: \<open>Decision\<close> (module \<open>dual_model.decision_model\<close>, not among
  the sources) carries action, target, content, reasoning and finished.
\<close>

record decision =
  d_action :: pystr
  d_target :: pystr
  d_content :: "pystr option"
  d_reasoning :: pystr
  d_finished :: bool

text \<open>
  Modelled from the spec: \<open>TaskPlan\<close> (module \<open>dual_model.decision_model\<close>, not among
  the sources), with its steps, its estimated number of actions and its \<open>to_dict()\<close>.
\<close>

record task_plan =
  tp_steps :: "pyval list"
  tp_estimated_actions :: int
  tp_dict :: pydict

text \<open>
  Modelled from the spec: \<open>ScreenDescription\<close> (module \<open>dual_model.vision_model\<close>, not
  among the sources) carries description, current_app and elements.
\<close>

record screen_description =
  scr_description :: pystr
  scr_current_app :: pystr
  scr_elements :: pyval

text \<open>
  Modelled from the spec: \<open>ExecutionResult\<close> (module \<open>dual_model.vision_model\<close>, not among
  the sources) carries action_type, target, position, success, finished and message.
\<close>

record execution_result =
  ex_action_type :: pystr
  ex_target :: pystr
  ex_position :: pyval
  ex_success :: bool
  ex_finished :: bool
  ex_message :: pystr

text \<open>\<open>StepResult\<close> of dual_agent.py.\<close>

record dm_step_result =
  sr_step :: nat
  sr_success :: bool
  sr_finished :: bool
  sr_decision :: "decision option"
  sr_screen_desc :: "screen_description option"
  sr_execution :: "execution_result option"
  sr_error :: "pystr option"

datatype model_role = DECISION | VISION

datatype model_stage =
  IDLE | ANALYZING | DECIDING | GENERATING | CAPTURING | RECOGNIZING | EXECUTING | WAITING

datatype dm_event_type =
    DECISION_START | DECISION_THINKING | DECISION_RESULT | CONTENT_GENERATION | TASK_PLAN
  | VISION_START | VISION_RECOGNITION | ACTION_START | ACTION_RESULT
  | STEP_COMPLETE | TASK_COMPLETE | ERROR | ABORTED

text \<open>\<open>DualModelEvent\<close>, without its timestamp (wall-clock time).\<close>

record dm_event =
  ev_type :: dm_event_type
  ev_data :: pydict
  ev_model :: "model_role option"
  ev_step :: nat

text \<open>\<open>DualModelState\<close> of protocols.py.\<close>

record dual_model_state =
  decision_active :: bool
  decision_stage :: model_stage
  decision_thinking :: pystr
  decision_result :: pystr
  vision_active :: bool
  vision_stage :: model_stage
  vision_description :: pystr
  vision_action :: pystr
  current_step :: nat
  total_steps :: int
  state_task_plan :: "pyval list"

text \<open>
  The fields of \<open>DualModelAgent\<close> that a run changes. \<open>dispatched\<close> is not a field of the
  class: it records, in order, the decisions handed to \<open>vision_model.execute_decision\<close>,
  that is the actions dispatched to the vision model.
\<close>

record dm_agent =
  dm_state :: dual_model_state
  current_task :: pystr
  dm_task_plan :: "task_plan option"
  dm_step_count :: nat
  stop_event :: bool
  event_queue :: "dm_event list"
  dispatched :: "pydict list"

text \<open>
  The collaborators of a dual-model run. A call that raises an \<open>Exception\<close> returns \<open>Inl\<close>
  (or \<open>Some\<close>, for a callback) of its \<open>str\<close>; a model call also gives the thinking chunks
  it streamed through \<open>on_thinking\<close> before it returned or raised. The vision and decision
  models are asked at a step number. \<open>abort_during n\<close> tells whether \<open>abort()\<close> is called
  (from another thread) while step \<open>n\<close> runs, and for \<open>n = 0\<close> while the task is analysed.
  A callback that is not set is \<open>None\<close>.
\<close>

record dm_env =
  dm_max_steps :: int
  analyze_task :: "pystr \<Rightarrow> pystr list \<times> (pystr + task_plan)"
  capture_screenshot :: "nat \<Rightarrow> pystr + (pystr \<times> int \<times> int)"
  describe_screen :: "nat \<Rightarrow> pystr \<Rightarrow> pystr + screen_description"
  make_decision :: "nat \<Rightarrow> pystr \<Rightarrow> pystr \<Rightarrow> pystr list \<times> (pystr + decision)"
  execute_decision :: "nat \<Rightarrow> pydict \<Rightarrow> pystr \<Rightarrow> pystr + execution_result"
  decision_to_dict :: "decision \<Rightarrow> pydict"
  abort_during :: "nat \<Rightarrow> bool"
  on_decision_start :: "(nat \<Rightarrow> pystr option) option"
  on_decision_result :: "(decision \<Rightarrow> pystr option) option"
  on_task_plan :: "(task_plan \<Rightarrow> pystr option) option"
  on_vision_start :: "(nat \<Rightarrow> pystr option) option"
  on_vision_recognition :: "(screen_description \<Rightarrow> pystr option) option"
  on_action_start :: "(pydict \<Rightarrow> pystr option) option"
  on_action_result :: "(execution_result \<Rightarrow> pystr option) option"
  on_step_complete :: "(nat \<times> bool \<Rightarrow> pystr option) option"
  on_task_complete :: "(bool \<times> pystr \<Rightarrow> pystr option) option"
  on_error :: "(pystr \<Rightarrow> pystr option) option"

text \<open>\<open>if cb: cb(x)\<close>: \<open>Some e\<close> when the callback is set and raises.\<close>

definition call_back :: "('a \<Rightarrow> pystr option) option \<Rightarrow> 'a \<Rightarrow> pystr option" where
  "call_back cb x = (case cb of None \<Rightarrow> None | Some f \<Rightarrow> f x)"

definition emit_event :: "dm_event_type \<Rightarrow> pydict \<Rightarrow> model_role option \<Rightarrow> dm_agent \<Rightarrow> dm_agent" where
  "emit_event t d m a =
     a\<lparr>event_queue := event_queue a
          @ [\<lparr>ev_type = t, ev_data = d, ev_model = m, ev_step = dm_step_count a\<rparr>]\<rparr>"

text \<open>\<open>_update_state(**kwargs)\<close>: the given fields, then \<open>current_step\<close>.\<close>

definition update_state :: "(dual_model_state \<Rightarrow> dual_model_state) \<Rightarrow> dm_agent \<Rightarrow> dm_agent" where
  "update_state upd a = a\<lparr>dm_state := (upd (dm_state a))\<lparr>current_step := dm_step_count a\<rparr>\<rparr>"

text \<open>\<open>_on_decision_thinking\<close> for each chunk the decision model streams.\<close>

definition emit_thinking :: "pystr list \<Rightarrow> dm_agent \<Rightarrow> dm_agent" where
  "emit_thinking chunks a =
     foldl (\<lambda>a c. emit_event DECISION_THINKING [(py ''chunk'', PStr c)] (Some DECISION) a) a chunks"

text \<open>The literals of dual_agent.py that are not ASCII, as code points.\<close>

definition msg_current_app :: pystr where
  "msg_current_app = [24403, 21069, 24212, 29992, 58, 32]"

definition msg_task_done :: pystr where
  "msg_task_done = [20219, 21153, 23436, 25104]"

definition msg_interrupted :: pystr where
  "msg_interrupted = [20219, 21153, 34987, 29992, 25143, 20013, 26029]"

definition msg_max_steps :: pystr where
  "msg_max_steps = [36798, 21040, 26368, 22823, 27493, 25968, 38480, 21046]"

definition msg_exception :: pystr where
  "msg_exception = [25191, 34892, 24322, 24120, 58, 32]"

definition str_of_int :: "int \<Rightarrow> pystr" where
  "str_of_int i = (if i < 0 then py ''-'' @ str_of_nat (nat (- i)) else str_of_nat (nat i))"

text \<open>Stage 2.1 of \<open>_execute_step\<close>: the vision model captures and describes the screen.\<close>

definition dm_observe :: "dm_env \<Rightarrow> dm_agent \<Rightarrow> (pystr + pystr \<times> screen_description) \<times> dm_agent" where
  "dm_observe env a0 =
     (let a1 = update_state (\<lambda>s. s\<lparr>vision_stage := RECOGNIZING, vision_active := True,
                                    decision_active := False\<rparr>) a0;
          a2 = emit_event VISION_START [(py ''stage'', PStr (py ''recognizing''))] (Some VISION) a1
      in (case call_back (on_vision_start env) (dm_step_count a2) of
            Some e \<Rightarrow> (Inl e, a2)
          | None \<Rightarrow>
              (case capture_screenshot env (dm_step_count a2) of
                 Inl e \<Rightarrow> (Inl e, a2)
               | Inr (screenshot_base64, w, h) \<Rightarrow>
                   (case describe_screen env (dm_step_count a2) screenshot_base64 of
                      Inl e \<Rightarrow> (Inl e, a2)
                    | Inr screen_desc \<Rightarrow>
                        (let a3 = update_state
                                    (\<lambda>s. s\<lparr>vision_description := take 200 (scr_description screen_desc),
                                           vision_stage := IDLE\<rparr>) a2;
                             a4 = emit_event VISION_RECOGNITION
                                    [(py ''description'', PStr (scr_description screen_desc)),
                                     (py ''current_app'', PStr (scr_current_app screen_desc)),
                                     (py ''elements'', scr_elements screen_desc)]
                                    (Some VISION) a3
                         in (case call_back (on_vision_recognition env) screen_desc of
                               Some e \<Rightarrow> (Inl e, a4)
                             | None \<Rightarrow> (Inr (screenshot_base64, screen_desc), a4)))))))"

text \<open>Stage 2.2 of \<open>_execute_step\<close>: the decision model decides.\<close>

definition dm_decide :: "dm_env \<Rightarrow> screen_description \<Rightarrow> dm_agent \<Rightarrow> (pystr + decision) \<times> dm_agent" where
  "dm_decide env screen_desc a0 =
     (let a1 = update_state (\<lambda>s. s\<lparr>decision_stage := DECIDING, decision_active := True,
                                    vision_active := False\<rparr>) a0;
          a2 = emit_event DECISION_START [(py ''stage'', PStr (py ''deciding''))] (Some DECISION) a1
      in (case call_back (on_decision_start env) (dm_step_count a2) of
            Some e \<Rightarrow> (Inl e, a2)
          | None \<Rightarrow>
              (case make_decision env (dm_step_count a2) (scr_description screen_desc)
                      (msg_current_app @ scr_current_app screen_desc) of
                 (chunks, r) \<Rightarrow>
                   (let a3 = emit_thinking chunks a2 in
                    (case r of
                       Inl e \<Rightarrow> (Inl e, a3)
                     | Inr d \<Rightarrow>
                         (let a4 = update_state
                                     (\<lambda>s. s\<lparr>decision_result := d_action d @ py '': '' @ d_target d,
                                            decision_thinking := d_reasoning d,
                                            decision_stage := IDLE\<rparr>) a3;
                              a5 = emit_event DECISION_RESULT
                                     [(py ''decision'', PDict (decision_to_dict env d)),
                                      (py ''reasoning'', PStr (d_reasoning d))]
                                     (Some DECISION) a4
                          in (case call_back (on_decision_result env) d of
                                Some e \<Rightarrow> (Inl e, a5)
                              | None \<Rightarrow> (Inr d, a5))))))))"

text \<open>Stage 2.3 of \<open>_execute_step\<close>: the vision model executes the decision.\<close>

definition dm_act :: "dm_env \<Rightarrow> pystr \<Rightarrow> decision \<Rightarrow> dm_agent \<Rightarrow> (pystr + execution_result) \<times> dm_agent" where
  "dm_act env screenshot_base64 d a0 =
     (let a1 = update_state (\<lambda>s. s\<lparr>vision_stage := EXECUTING, vision_active := True,
                                    decision_active := False\<rparr>) a0;
          action_dict = [(py ''action'', PStr (d_action d)), (py ''target'', PStr (d_target d)),
                         (py ''content'', (case d_content d of None \<Rightarrow> PNone | Some c \<Rightarrow> PStr c))];
          a2 = emit_event ACTION_START [(py ''action'', PDict action_dict)] (Some VISION) a1
      in (case call_back (on_action_start env) action_dict of
            Some e \<Rightarrow> (Inl e, a2)
          | None \<Rightarrow>
              (let a3 = a2\<lparr>dispatched := dispatched a2 @ [action_dict]\<rparr> in
               (case execute_decision env (dm_step_count a3) action_dict screenshot_base64 of
                  Inl e \<Rightarrow> (Inl e, a3)
                | Inr execution \<Rightarrow>
                    (let a4 = update_state
                                (\<lambda>s. s\<lparr>vision_action := ex_action_type execution @ py '': ''
                                                         @ ex_target execution,
                                       vision_stage := IDLE, vision_active := False\<rparr>) a3;
                         a5 = emit_event ACTION_RESULT
                                [(py ''success'', PBool (ex_success execution)),
                                 (py ''action_type'', PStr (ex_action_type execution)),
                                 (py ''target'', PStr (ex_target execution)),
                                 (py ''position'', ex_position execution),
                                 (py ''message'', PStr (ex_message execution))]
                                (Some VISION) a4
                     in (case call_back (on_action_result env) execution of
                           Some e \<Rightarrow> (Inl e, a5)
                         | None \<Rightarrow>
                             (Inr execution,
                              emit_event STEP_COMPLETE
                                [(py ''step'', PInt (int (dm_step_count a5))),
                                 (py ''success'', PBool (ex_success execution)),
                                 (py ''finished'', PBool (ex_finished execution))]
                                None a5)))))))"

text \<open>The \<open>StepResult\<close> of the \<open>except Exception\<close> clause.\<close>

definition error_result :: "dm_agent \<Rightarrow> pystr \<Rightarrow> dm_step_result" where
  "error_result a e =
     \<lparr>sr_step = dm_step_count a, sr_success = False, sr_finished = False, sr_decision = None,
      sr_screen_desc = None, sr_execution = None, sr_error = Some e\<rparr>"

definition dm_execute_step :: "dm_env \<Rightarrow> dm_agent \<Rightarrow> dm_step_result \<times> dm_agent" where
  "dm_execute_step env a0 =
     (case dm_observe env a0 of
        (Inl e, a) \<Rightarrow> (error_result a e, a)
      | (Inr (screenshot_base64, screen_desc), a) \<Rightarrow>
          (case dm_decide env screen_desc a of
             (Inl e, a) \<Rightarrow> (error_result a e, a)
           | (Inr d, a) \<Rightarrow>
               if d_finished d then
                 (\<lparr>sr_step = dm_step_count a, sr_success = True, sr_finished = True,
                   sr_decision = Some d, sr_screen_desc = Some screen_desc,
                   sr_execution = None, sr_error = None\<rparr>, a)
               else
                 (case dm_act env screenshot_base64 d a of
                    (Inl e, a) \<Rightarrow> (error_result a e, a)
                  | (Inr execution, a) \<Rightarrow>
                      (\<lparr>sr_step = dm_step_count a, sr_success = ex_success execution,
                        sr_finished = ex_finished execution, sr_decision = Some d,
                        sr_screen_desc = Some screen_desc, sr_execution = Some execution,
                        sr_error = None\<rparr>, a))))"

text \<open>How the loop of \<open>run\<close> is left: by the abort return, by its condition, or by an exception.\<close>

datatype loop_exit = Interrupted | Exited bool pystr | Raised pystr

text \<open>\<open>if step_result.error\<close>: the error is set and not the empty string.\<close>

definition truthy_error :: "dm_step_result \<Rightarrow> pystr option" where
  "truthy_error r = (case sr_error r of None \<Rightarrow> None | Some e \<Rightarrow> if e \<noteq> [] then Some e else None)"

text \<open>One iteration of the loop of \<open>run\<close>, from \<open>self.step_count += 1\<close> to the step's result.\<close>

definition dm_iteration :: "dm_env \<Rightarrow> dm_agent \<Rightarrow> dm_step_result \<times> dm_agent" where
  "dm_iteration env a =
     (case dm_execute_step env (a\<lparr>dm_step_count := dm_step_count a + 1\<rparr>) of
        (r, a') \<Rightarrow> (r, a'\<lparr>stop_event := stop_event a' \<or> abort_during env (dm_step_count a')\<rparr>))"

function dm_loop :: "dm_env \<Rightarrow> bool \<Rightarrow> pystr \<Rightarrow> dm_agent \<Rightarrow> loop_exit \<times> dm_agent" where
  "dm_loop env finished last_message a =
     (if \<not> finished \<and> int (dm_step_count a) < dm_max_steps env then
        (if stop_event a then (Interrupted, a)
         else
           (case dm_iteration env a of
              (r, a') \<Rightarrow>
                (case truthy_error r of
                   Some err \<Rightarrow>
                     (case call_back (on_error env) err of
                        Some e \<Rightarrow> (Raised e, a')
                      | None \<Rightarrow> dm_loop env finished last_message a')
                 | None \<Rightarrow>
                     (case call_back (on_step_complete env) (dm_step_count a', sr_success r) of
                        Some e \<Rightarrow> (Raised e, a')
                      | None \<Rightarrow>
                          if sr_finished r then
                            dm_loop env True
                              (case sr_decision r of
                                 Some d \<Rightarrow> d_reasoning d
                               | None \<Rightarrow> msg_task_done) a'
                          else dm_loop env finished last_message a'))))
      else (Exited finished last_message, a))"
  by pat_completeness auto

text \<open>A step leaves the step count as it is, so the loop ends.\<close>

lemma emit_event_step_count [simp]: "dm_step_count (emit_event t d m a) = dm_step_count a"
  by (simp add: emit_event_def)

lemma update_state_step_count [simp]: "dm_step_count (update_state upd a) = dm_step_count a"
  by (simp add: update_state_def)

lemma emit_thinking_step_count [simp]: "dm_step_count (emit_thinking chunks a) = dm_step_count a"
  unfolding emit_thinking_def by (induction chunks arbitrary: a) simp_all

lemma dm_observe_step_count:
  "dm_observe env a = (r, a') \<Longrightarrow> dm_step_count a' = dm_step_count a"
  by (auto simp: dm_observe_def Let_def split: option.splits sum.splits prod.splits)

lemma dm_decide_step_count:
  "dm_decide env desc a = (r, a') \<Longrightarrow> dm_step_count a' = dm_step_count a"
  by (auto simp: dm_decide_def Let_def split: option.splits sum.splits prod.splits)

lemma dm_act_step_count:
  "dm_act env shot d a = (r, a') \<Longrightarrow> dm_step_count a' = dm_step_count a"
  by (auto simp: dm_act_def Let_def split: option.splits sum.splits prod.splits)

lemma dm_execute_step_count:
  "dm_execute_step env a = (r, a') \<Longrightarrow> dm_step_count a' = dm_step_count a"
  by (auto simp: dm_execute_step_def
           split: sum.splits prod.splits if_splits
           dest!: dm_observe_step_count dm_decide_step_count dm_act_step_count)

lemma dm_iteration_step_count:
  "dm_iteration env a = (r, a') \<Longrightarrow> dm_step_count a' = Suc (dm_step_count a)"
  by (auto simp: dm_iteration_def split: prod.splits dest!: dm_execute_step_count)

termination dm_loop
  apply (relation "measure (\<lambda>(env, finished, last_message, a).
                      nat (dm_max_steps env - int (dm_step_count a)))")
     apply simp
    apply (auto dest!: sym [THEN dm_iteration_step_count])
  done

declare dm_loop.simps [simp del]

text \<open>\<open>run\<close> returns a dict with success, message and steps.\<close>

record run_result =
  rr_success :: bool
  rr_message :: pystr
  rr_steps :: nat

text \<open>
  The first part of \<open>run\<close>: the decision model analyses the task. \<open>Some e\<close> is an
  exception.
\<close>

definition dm_analyze :: "dm_env \<Rightarrow> pystr \<Rightarrow> dm_agent \<Rightarrow> pystr option \<times> dm_agent" where
  "dm_analyze env task a0 =
     (let a1 = update_state (\<lambda>s. s\<lparr>decision_stage := ANALYZING, decision_active := True\<rparr>) a0;
          a2 = emit_event DECISION_START
                 [(py ''stage'', PStr (py ''analyzing'')), (py ''task'', PStr task)]
                 (Some DECISION) a1
      in (case call_back (on_decision_start env) (dm_step_count a2) of
            Some e \<Rightarrow> (Some e, a2)
          | None \<Rightarrow>
              (case analyze_task env task of
                 (chunks, r) \<Rightarrow>
                   (let a3 = emit_thinking chunks a2 in
                    (case r of
                       Inl e \<Rightarrow> (Some e, a3)
                     | Inr plan \<Rightarrow>
                         (let a4 = a3\<lparr>dm_task_plan := Some plan\<rparr>;
                              a5 = emit_event TASK_PLAN [(py ''plan'', PDict (tp_dict plan))]
                                     (Some DECISION) a4
                          in (case call_back (on_task_plan env) plan of
                                Some e \<Rightarrow> (Some e, a5)
                              | None \<Rightarrow>
                                  (None,
                                   a5\<lparr>dm_state := (dm_state a5)
                                        \<lparr>state_task_plan := tp_steps plan,
                                         total_steps := tp_estimated_actions plan\<rparr>\<rparr>))))))))"

text \<open>The \<open>except Exception\<close> clause of \<open>run\<close>.\<close>

definition dm_exception :: "pystr \<Rightarrow> dm_agent \<Rightarrow> run_result \<times> dm_agent" where
  "dm_exception e a =
     (\<lparr>rr_success = False, rr_message = msg_exception @ e, rr_steps = dm_step_count a\<rparr>,
      emit_event ERROR [(py ''message'', PStr e)] None a)"

definition run :: "dm_env \<Rightarrow> pystr \<Rightarrow> dm_agent \<Rightarrow> run_result \<times> dm_agent" where
  "run env task a0 =
     (case dm_analyze env task (a0\<lparr>current_task := task, dm_step_count := 0, stop_event := False\<rparr>) of
        (Some e, a) \<Rightarrow> dm_exception e a
      | (None, a) \<Rightarrow>
          (case dm_loop env False [] (a\<lparr>stop_event := stop_event a \<or> abort_during env 0\<rparr>) of
             (Interrupted, a') \<Rightarrow>
               (\<lparr>rr_success = False, rr_message = msg_interrupted, rr_steps = dm_step_count a'\<rparr>, a')
           | (Raised e, a') \<Rightarrow> dm_exception e a'
           | (Exited finished last_message, a') \<Rightarrow>
               (let success = finished;
                    message = (if finished then last_message
                               else msg_max_steps @ py ''('' @ str_of_int (dm_max_steps env) @ py '')'');
                    a'' = emit_event TASK_COMPLETE
                            [(py ''success'', PBool success), (py ''message'', PStr message),
                             (py ''steps'', PInt (int (dm_step_count a')))]
                            None a'
                in (case call_back (on_task_complete env) (success, message) of
                      Some e \<Rightarrow> dm_exception e a''
                    | None \<Rightarrow>
                        (\<lparr>rr_success = success, rr_message = message,
                          rr_steps = dm_step_count a'\<rparr>, a'')))))"

text \<open>A coordinator as its constructor leaves it.\<close>

definition new_dm_agent :: dm_agent where
  "new_dm_agent =
     \<lparr>dm_state = \<lparr>decision_active = False, decision_stage = IDLE, decision_thinking = [],
                  decision_result = [], vision_active = False, vision_stage = IDLE,
                  vision_description = [], vision_action = [], current_step = 0,
                  total_steps = 0, state_task_plan = []\<rparr>,
      current_task = [], dm_task_plan = None, dm_step_count = 0, stop_event = False,
      event_queue = [], dispatched = []\<rparr>"

section \<open>Scenarios\<close>



text \<open>The events a stage adds to the queue have their types in \<open>S\<close>.\<close>

definition queue_grows :: "dm_event_type set \<Rightarrow> dm_agent \<Rightarrow> dm_agent \<Rightarrow> bool" where
  "queue_grows S a a' \<longleftrightarrow>
     (\<exists>new. event_queue a' = event_queue a @ new \<and> (\<forall>ev \<in> set new. ev_type ev \<in> S))"

definition scen_plan :: task_plan where
  "scen_plan = \<lparr>tp_steps = [PStr (py ''open the app'')], tp_estimated_actions = 1, tp_dict = []\<rparr>"

definition scen_desc :: screen_description where
  "scen_desc = \<lparr>scr_description = py ''home screen'', scr_current_app = py ''launcher'',
                 scr_elements = PList []\<rparr>"

definition scen_decision :: "bool \<Rightarrow> decision" where
  "scen_decision fin = \<lparr>d_action = py ''tap'', d_target = py ''icon'', d_content = None,
                         d_reasoning = py ''the task is done'', d_finished = fin\<rparr>"

definition scen_execution :: execution_result where
  "scen_execution = \<lparr>ex_action_type = py ''tap'', ex_target = py ''icon'', ex_position = PNone,
                      ex_success = True, ex_finished = False, ex_message = py ''ok''\<rparr>"

text \<open>
  A dual-model environment with no callbacks and no abort: the screen is captured unless
  \<open>broken\<close> names the step, and the decision model's decision has \<open>finished = fin\<close>.
\<close>

definition scen_dm_env :: "int \<Rightarrow> (nat \<Rightarrow> bool) \<Rightarrow> bool \<Rightarrow> dm_env" where
  "scen_dm_env limit broken fin =
     \<lparr>dm_max_steps = limit,
      analyze_task = (\<lambda>task. ([], Inr scen_plan)),
      capture_screenshot = (\<lambda>n. if broken n then Inl (py ''device offline'')
                                  else Inr (py ''img'', 1080, 1920)),
      describe_screen = (\<lambda>n shot. Inr scen_desc),
      make_decision = (\<lambda>n description app. ([py ''hm''], Inr (scen_decision fin))),
      execute_decision = (\<lambda>n d shot. Inr scen_execution),
      decision_to_dict = (\<lambda>d. []),
      abort_during = (\<lambda>n. False),
      on_decision_start = None, on_decision_result = None, on_task_plan = None,
      on_vision_start = None, on_vision_recognition = None, on_action_start = None,
      on_action_result = None, on_step_complete = None, on_task_complete = None,
      on_error = None\<rparr>"


section \<open>Vocabulary of the properties of a run\<close>

definition scen_shot :: screenshot where
  "scen_shot = \<lparr>base64_data = py ''img'', width = 1080, height = 1920\<rparr>"

definition scen_tap :: pydict where
  "scen_tap = do_action ''Tap'' [(py ''element'', PList [PInt 500, PInt 300])]"

definition scen_result :: "bool \<Rightarrow> action_result" where
  "scen_result stop = \<lparr>ar_success = True, should_finish = stop, ar_message = None\<rparr>"

text \<open>
  An environment for a run: the device answers unless \<open>broken\<close> names the call, the
  model asks for a tap in every step (in the DSL for the GLM agent, as the tool call
  \<open>tap\<close> for the Gemini agent), and the executor succeeds with \<open>should_finish = stop\<close>.
\<close>

definition scen_env :: "agent_kind \<Rightarrow> int \<Rightarrow> (point \<Rightarrow> bool) \<Rightarrow> (point \<Rightarrow> bool) \<Rightarrow> bool \<Rightarrow> env" where
  "scen_env kind limit cancels broken stop =
     \<lparr>agent_type = kind, max_steps = limit, cancel_at = cancels,
      get_screenshot = (\<lambda>p. if broken p then Inl (py ''device offline'') else Inr scen_shot),
      get_current_app = (\<lambda>p. Inr (py ''launcher'')),
      build_screen_info = (\<lambda>app. app),
      chat_stream = (\<lambda>n c. Chunks [Delta (Some (py ''go do(action=Tap)''))] None),
      parse = (\<lambda>s. Inr scen_tap),
      chat_tools = (\<lambda>n c. Inr \<lparr>cm_content = Some (py ''go''),
                                 cm_tool_calls = [(py ''tap'', py ''{x: 500, y: 300}'')]\<rparr>),
      json_loads = (\<lambda>s. Some (PDict [(py ''x'', PInt 500), (py ''y'', PInt 300)])),
      json_dumps = (\<lambda>v. py ''{}''),
      repr = (\<lambda>v. py ''?''),
      execute = (\<lambda>n a w h. Inr (scen_result stop))\<rparr>"

text \<open>The agent as \<open>stream\<close> has it when the loop starts: running, not cancelled.\<close>

definition running_agent :: "pystr \<Rightarrow> agent" where
  "running_agent system_prompt = (new_agent system_prompt)\<lparr>is_running := True\<rparr>"

text \<open>\<open>cancel()\<close> is called once, right after the \<open>step\<close> event of step \<open>k\<close> is yielded.\<close>

definition cancel_after_step :: "nat \<Rightarrow> point \<Rightarrow> bool" where
  "cancel_after_step k p = (case p of Yielded (Step sd) \<Rightarrow> sd_step sd = k | _ \<Rightarrow> False)"

text \<open>\<open>cancel()\<close> is only ever called right after a \<open>step\<close> event is yielded.\<close>

definition cancels_between_steps :: "env \<Rightarrow> bool" where
  "cancels_between_steps env \<longleftrightarrow> (\<forall>p. cancel_at env p \<longrightarrow> (\<exists>sd. p = Yielded (Step sd)))"

text \<open>
  The device always answers, the model call always succeeds and never asks for a
  finish-equivalent action, and the executor never raises and never sets \<open>should_finish\<close>.
\<close>

definition never_finishes :: "env \<Rightarrow> bool" where
  "never_finishes env \<longleftrightarrow>
     (\<forall>p. \<exists>shot. get_screenshot env p = Inr shot)
   \<and> (\<forall>p. \<exists>app. get_current_app env p = Inr app)
   \<and> (\<forall>n a w h. \<exists>r. execute env n a w h = Inr r \<and> \<not> should_finish r)
   \<and> (case agent_type env of
         GLM \<Rightarrow>
           (\<forall>n c. \<exists>cs. chat_stream env n c = Chunks cs None)
         \<and> (\<forall>s. \<exists>a. parse env s = Inr a \<and> \<not> is_finish a)
       | Gemini \<Rightarrow>
           (\<forall>n c. \<exists>m name args rest a.
               chat_tools env n c = Inr m \<and> cm_tool_calls m = (name, args) # rest
             \<and> tool_call_to_action_any (repr env) name
                  (case json_loads env args of None \<Rightarrow> PDict [] | Some v \<Rightarrow> v) = Inr a
             \<and> \<not> is_finish a))"

text \<open>The step numbers of the \<open>step\<close> events, in order.\<close>

fun step_numbers :: "event list \<Rightarrow> nat list" where
  "step_numbers [] = []"
| "step_numbers (Step sd # evs) = sd_step sd # step_numbers evs"
| "step_numbers (ev # evs) = step_numbers evs"

text \<open>A thinking chunk, or a \<open>step\<close> event that does not finish the run.\<close>

fun quiet_event :: "event \<Rightarrow> bool" where
  "quiet_event (Thinking c) = True"
| "quiet_event (Step sd) = (\<not> sd_finished sd)"
| "quiet_event ev = False"

text \<open>
  The step of a run in state \<open>st\<close> reaches its action phase: the device is observed (by
  the GLM agent in every step, by the Gemini agent from the second step on), the model
  answers, and its answer is parsed (the GLM agent) or mapped (the Gemini agent) into
  \<open>action\<close>. \<open>evs\<close> are the thinking events the step has yielded by then, \<open>thinking\<close> is the
  thinking text, and \<open>result\<close> is what the executor returns for \<open>action\<close> in this step, or
  the failed result that replaces its exception.
\<close>

inductive action_phase :: "env \<Rightarrow> agent \<Rightarrow> event list \<Rightarrow> pystr \<Rightarrow> pydict \<Rightarrow> action_result \<Rightarrow> bool" where
  glm: "agent_type env = GLM \<Longrightarrow>
        observe env (Suc (step_count st)) (st\<lparr>step_count := step_count st + 1\<rparr>)
          = (Inr (shot, app), st1) \<Longrightarrow>
        stream_openai env (Suc (step_count st))
          ([], st1\<lparr>agent_context := agent_context st1
                  @ [create_user_message
                       (py ''** Screen Info **'' @ [10, 10] @ build_screen_info env app)
                       (Some (base64_data shot))]\<rparr>)
          = (LLMDone, acc, g) \<Longrightarrow>
        glm_parse_action env (snd acc) = Inr action \<Longrightarrow>
        action_phase env st (fst g) (concat (fst acc)) action
          (run_executor env (Suc (step_count st)) action (width shot) (height shot))"
| gemini: "agent_type env = Gemini \<Longrightarrow>
        gemini_observe env (Suc (step_count st)) (st\<lparr>step_count := step_count st + 1\<rparr>)
          = (None, st1) \<Longrightarrow>
        call_llm_with_tools env (Suc (step_count st)) st1
          = (ToolsCall thinking tool_name tool_args, st2) \<Longrightarrow>
        tool_call_to_action_any (repr env) tool_name tool_args = Inr action \<Longrightarrow>
        g = (if thinking \<noteq> [] then yield env (Thinking thinking) ([], st2) else ([], st2)) \<Longrightarrow>
        gemini_execute_action env (Suc (step_count st)) action (snd g) = (result, st3) \<Longrightarrow>
        action_phase env st (fst g) thinking action result"

text \<open>
  Each of the next \<open>k\<close> steps of a run in state \<open>st\<close> reaches its action phase with an action
  that is not finish-equivalent, the executor's result does not set \<open>should_finish\<close>, and
  \<open>cancel()\<close> has not been called when the step ends.
\<close>

inductive unfinished_steps :: "env \<Rightarrow> nat \<Rightarrow> agent \<Rightarrow> bool" where
  none: "unfinished_steps env 0 st"
| step: "action_phase env st evs thinking action result \<Longrightarrow>
         \<not> is_finish action \<Longrightarrow> \<not> should_finish result \<Longrightarrow>
         execute_step env st = (evs', st', r) \<Longrightarrow>
         is_running st' \<Longrightarrow> \<not> cancel_event st' \<Longrightarrow>
         unfinished_steps env k st' \<Longrightarrow>
         unfinished_steps env (Suc k) st"

section \<open>Properties of the string operations\<close>

lemma py_find_None_iff: "py_find sub s = None \<longleftrightarrow> \<not> sublist sub s"
  by (induction s) (auto simp: sublist_Cons_right)

lemma py_in_iff: "py_in sub s \<longleftrightarrow> (\<exists>xs ys. s = xs @ sub @ ys)"
  by (simp add: py_in_def py_find_None_iff sublist_def)

lemma py_in_split1_length: "py_in sep s \<Longrightarrow> length (py_split1 sep s) = 2"
  by (auto simp: py_in_def py_split1_def)

section \<open>The tool-call mapper\<close>

text \<open>
  C9 (float coercion). \<open>tool_call_to_action("tap", {"x": 500.7, "y": 300.2})\<close> is the Do
  action of kind Tap with element \<open>[500, 300]\<close>: the floats are truncated. The two
  arguments are the doubles nearest to 500.7 and 300.2, that is
  \<open>8808407552439091 / 2^44\<close> and \<open>5281174250533683 / 2^44\<close>.
\<close>

theorem tap_float_coercion:
  "tool_call_to_action rp (py ''tap'')
     [(py ''x'', PFloat (Finite 8808407552439091 (- 44))),
      (py ''y'', PFloat (Finite 5281174250533683 (- 44)))]
   = Inr [(py ''_metadata'', PStr (py ''do'')), (py ''action'', PStr (py ''Tap'')),
          (py ''element'', PList [PInt 500, PInt 300])]"
  by (simp add: tool_call_to_action_def build_action_def int_pair_def and_then_def
        require_int_def dict_get_def do_action_def)

text \<open>
  C4 (mapper totality and fallback). The mapper is not total: for the tool \<open>tap\<close> with
  \<open>x\<close> an infinite float (as \<open>json.loads\<close> gives for \<open>1e999\<close> or \<open>Infinity\<close>), \<open>int(val)\<close>
  raises \<open>OverflowError\<close>, which the handler for \<open>ValueError\<close> and \<open>KeyError\<close> lets through.
\<close>

theorem tap_infinity_raises:
  "tool_call_to_action rp (py ''tap'') [(py ''x'', PFloat PosInf), (py ''y'', PInt 0)]
   = Inl (OverflowError (py ''cannot convert float infinity to integer''))"
  by (simp add: tool_call_to_action_def build_action_def int_pair_def and_then_def
        require_int_def dict_get_def)

section \<open>Splitting a response without marker\<close>

theorem parse_no_marker_counterexample:
  "\<not> py_in (py ''finish(message='') (py ''hello'')
   \<and> \<not> py_in (py ''do(action='') (py ''hello'')
   \<and> \<not> py_in (py ''<answer>'') (py ''hello'')
   \<and> fst (parse_raw_response (py ''hello'')) \<noteq> py ''hello''
   \<and> snd (parse_raw_response (py ''hello'')) \<noteq> []"
  by (simp add: parse_raw_response_def py_in_def)

text \<open>
  C3 (DSL parse with no marker), as the code has it: for every output that contains
  neither \<open>finish(message=\<close> nor \<open>do(action=\<close> nor \<open><answer>\<close>, the thinking is empty and
  the action string is the entire text.
\<close>

theorem parse_no_marker:
  assumes "\<not> py_in (py ''finish(message='') content"
    and "\<not> py_in (py ''do(action='') content"
    and "\<not> py_in (py ''<answer>'') content"
  shows "parse_raw_response content = ([], content)"
  using assms by (simp add: parse_raw_response_def)

theorem parse_no_marker_witness:
  "\<not> py_in (py ''finish(message='') (py ''hello'')
   \<and> \<not> py_in (py ''do(action='') (py ''hello'')
   \<and> \<not> py_in (py ''<answer>'') (py ''hello'')
   \<and> parse_raw_response (py ''hello'') = ([], py ''hello'')"
proof -
  have a: "\<not> py_in (py ''finish(message='') (py ''hello'')" by (simp add: py_in_def)
  have b: "\<not> py_in (py ''do(action='') (py ''hello'')" by (simp add: py_in_def)
  have c: "\<not> py_in (py ''<answer>'') (py ''hello'')" by (simp add: py_in_def)
  from a b c parse_no_marker [OF a b c] show ?thesis by blast
qed

section \<open>The dual-model coordinator: results of a step\<close>

lemma queue_grows_refl [simp]: "queue_grows S a a"
  by (simp add: queue_grows_def)

lemma queue_grows_trans:
  "queue_grows S a b \<Longrightarrow> queue_grows S b c \<Longrightarrow> queue_grows S a c"
  by (auto simp: queue_grows_def)

lemma queue_grows_mono: "queue_grows S a b \<Longrightarrow> S \<subseteq> T \<Longrightarrow> queue_grows T a b"
  by (auto simp: queue_grows_def)

lemma queue_grows_emit: "t \<in> S \<Longrightarrow> queue_grows S a b \<Longrightarrow> queue_grows S a (emit_event t d m b)"
  by (auto simp: queue_grows_def emit_event_def)

lemma queue_grows_update: "queue_grows S a b \<Longrightarrow> queue_grows S a (update_state upd b)"
  by (auto simp: queue_grows_def update_state_def)

lemma queue_grows_thinking:
  "DECISION_THINKING \<in> S \<Longrightarrow> queue_grows S a b \<Longrightarrow> queue_grows S a (emit_thinking chunks b)"
  unfolding emit_thinking_def
  by (induction chunks arbitrary: b) (simp_all add: queue_grows_emit)

lemma emit_event_dispatched [simp]: "dispatched (emit_event t d m a) = dispatched a"
  by (simp add: emit_event_def)

lemma update_state_dispatched [simp]: "dispatched (update_state upd a) = dispatched a"
  by (simp add: update_state_def)

lemma emit_thinking_dispatched [simp]: "dispatched (emit_thinking chunks a) = dispatched a"
  unfolding emit_thinking_def by (induction chunks arbitrary: a) simp_all

lemma dm_observe_effect:
  assumes "dm_observe env a = (r, a')"
  shows "dispatched a' = dispatched a"
    and "queue_grows {VISION_START, VISION_RECOGNITION} a a'"
  using assms
  by (auto simp: dm_observe_def Let_def queue_grows_emit queue_grows_update
           split: option.splits sum.splits prod.splits)

lemma dm_decide_effect:
  assumes "dm_decide env desc a = (r, a')"
  shows "dispatched a' = dispatched a"
    and "queue_grows {DECISION_START, DECISION_THINKING, DECISION_RESULT} a a'"
  using assms
  by (auto simp: dm_decide_def Let_def queue_grows_emit queue_grows_update queue_grows_thinking
           split: option.splits sum.splits prod.splits)

lemma dm_execute_step_finished:
  assumes obs: "dm_observe env a = (Inr (shot, desc), a1)"
    and dec: "dm_decide env desc a1 = (Inr d, a2)"
    and fin: "d_finished d"
  shows "dm_execute_step env a =
           (\<lparr>sr_step = dm_step_count a, sr_success = True, sr_finished = True,
             sr_decision = Some d, sr_screen_desc = Some desc, sr_execution = None,
             sr_error = None\<rparr>, a2)"
  using assms dm_observe_step_count [OF obs] dm_decide_step_count [OF dec]
  by (simp add: dm_execute_step_def)

text \<open>
  C8 (dual-model finished skip). In a dual-model step whose observation and decision
  stages hand over a Decision with \<open>finished\<close> set, the execution stage is skipped: the
  step result reports \<open>finished = True\<close> and \<open>success = True\<close>, nothing is dispatched to the
  vision model, and the step adds no \<open>action_start\<close>, \<open>action_result\<close> or \<open>step_complete\<close>
  event to the queue.
\<close>

theorem dual_finished_skips_execution:
  assumes obs: "dm_observe env a = (Inr (shot, desc), a1)"
    and dec: "dm_decide env desc a1 = (Inr d, a2)"
    and fin: "d_finished d"
  shows "dm_execute_step env a =
           (\<lparr>sr_step = dm_step_count a, sr_success = True, sr_finished = True,
             sr_decision = Some d, sr_screen_desc = Some desc, sr_execution = None,
             sr_error = None\<rparr>, a2)
         \<and> dispatched a2 = dispatched a
         \<and> (\<forall>ev \<in> set (event_queue a2).
               ev_type ev \<in> {ACTION_START, ACTION_RESULT, STEP_COMPLETE} \<longrightarrow> ev \<in> set (event_queue a))"
proof -
  have q1: "queue_grows {VISION_START, VISION_RECOGNITION, DECISION_START, DECISION_THINKING,
               DECISION_RESULT} a a1"
    by (rule queue_grows_mono [OF dm_observe_effect(2) [OF obs]]) simp
  have q2: "queue_grows {VISION_START, VISION_RECOGNITION, DECISION_START, DECISION_THINKING,
               DECISION_RESULT} a1 a2"
    by (rule queue_grows_mono [OF dm_decide_effect(2) [OF dec]]) simp
  from queue_grows_trans [OF q1 q2]
  have "\<forall>ev \<in> set (event_queue a2).
          ev_type ev \<in> {ACTION_START, ACTION_RESULT, STEP_COMPLETE} \<longrightarrow> ev \<in> set (event_queue a)"
    by (fastforce simp: queue_grows_def)
  moreover have "dispatched a2 = dispatched a"
    using dm_observe_effect(1) [OF obs] dm_decide_effect(1) [OF dec] by simp
  ultimately show ?thesis
    using dm_execute_step_finished [OF obs dec fin] by simp
qed

theorem dual_finished_skips_execution_witness:
  "d_finished (scen_decision True)
   \<and> fst (dm_execute_step (scen_dm_env 3 (\<lambda>n. False) True) new_dm_agent) =
        \<lparr>sr_step = 0, sr_success = True, sr_finished = True,
         sr_decision = Some (scen_decision True), sr_screen_desc = Some scen_desc,
         sr_execution = None, sr_error = None\<rparr>
   \<and> dispatched (snd (dm_execute_step (scen_dm_env 3 (\<lambda>n. False) True) new_dm_agent)) = []"
proof -
  let ?env = "scen_dm_env 3 (\<lambda>n. False) True"
  have obs: "dm_observe ?env new_dm_agent = (Inr (py ''img'', scen_desc), snd (dm_observe ?env new_dm_agent))"
    by (simp add: dm_observe_def scen_dm_env_def call_back_def Let_def)
  have dec: "dm_decide ?env scen_desc (snd (dm_observe ?env new_dm_agent))
               = (Inr (scen_decision True), snd (dm_decide ?env scen_desc (snd (dm_observe ?env new_dm_agent))))"
    by (simp add: dm_decide_def scen_dm_env_def call_back_def Let_def)
  have fin: "d_finished (scen_decision True)"
    by (simp add: scen_decision_def)
  from dual_finished_skips_execution [OF obs dec fin] fin show ?thesis
    by (simp add: new_dm_agent_def)
qed

text \<open>The decision stage hands over the decision the model made.\<close>

lemma dm_decide_Inr:
  assumes "call_back (on_decision_start env) (dm_step_count a) = None"
    and "make_decision env (dm_step_count a) (scr_description desc)
           (msg_current_app @ scr_current_app desc) = (chunks, Inr d)"
    and "call_back (on_decision_result env) d = None"
  shows "fst (dm_decide env desc a) = Inr d"
  using assms by (simp add: dm_decide_def Let_def)








section \<open>The run: steps, cancellation and the step bound\<close>

lemma yield_fst [simp]: "fst (yield env ev g) = fst g @ [ev]"
  by (simp add: yield_def)

lemma step_failure_fst [simp]:
  "fst (step_failure env n msg g) = fst g @ [Error msg, failure_step n msg]"
  by (simp add: step_failure_def)

lemma consume_events:
  "consume env ds acc g = (b, acc', g') \<Longrightarrow> \<exists>ths. fst g' = fst g @ map Thinking ths"
proof (induction ds arbitrary: acc g)
  case Nil
  then show ?case by simp
next
  case (Cons d ds)
  show ?case
  proof (cases "cancel_event (snd g)")
    case True
    with Cons.prems show ?thesis by simp
  next
    case False
    show ?thesis
    proof (cases d)
      case (RawData c)
      with Cons.prems False have "consume env ds (fst acc, snd acc @ c) g = (b, acc', g')"
        by simp
      from Cons.IH [OF this] show ?thesis .
    next
      case (ThinkingData c)
      with Cons.prems False
      have "consume env ds (fst acc @ [c], snd acc) (yield env (Thinking c) g) = (b, acc', g')"
        by simp
      from Cons.IH [OF this] obtain ths
        where "fst g' = fst (yield env (Thinking c) g) @ map Thinking ths" ..
      then have "fst g' = fst g @ map Thinking (c # ths)" by simp
      then show ?thesis ..
    qed
  qed
qed

lemma stream_chunks_events:
  "stream_chunks env n i cs err buffer ph acc g = (oc, acc', g')
   \<Longrightarrow> \<exists>ths. fst g' = fst g @ map Thinking ths"
proof (induction cs arbitrary: i buffer ph acc g)
  case Nil
  then have "fst g' = fst g @ map Thinking []" by (auto simp: Let_def)
  then show ?case ..
next
  case (Cons c cs)
  let ?st = "suspend env (AwaitChunk n i) (snd g)"
  show ?case
  proof (cases "cancel_event ?st")
    case True
    with Cons.prems have "fst g' = fst g @ map Thinking []" by (auto simp: Let_def)
    then show ?thesis ..
  next
    case False
    note nc = this
    have skip: "stream_chunks env n (Suc i) cs err buffer ph acc (fst g, ?st) = (oc, acc', g')
                \<Longrightarrow> ?thesis"
    proof -
      assume "stream_chunks env n (Suc i) cs err buffer ph acc (fst g, ?st) = (oc, acc', g')"
      from Cons.IH [OF this] show ?thesis by simp
    qed
    show ?thesis
    proof (cases c)
      case NoChoices
      with Cons.prems nc show ?thesis by (intro skip) (simp add: Let_def)
    next
      case (Delta co)
      show ?thesis
      proof (cases co)
        case None
        with Delta Cons.prems nc show ?thesis by (intro skip) (simp add: Let_def)
      next
        case (Some content)
        obtain ds b' p' where pd: "process_delta buffer ph content = (ds, b', p')"
          by (cases "process_delta buffer ph content")
        obtain cb acc1 g1 where cs: "consume env ds acc (fst g, ?st) = (cb, acc1, g1)"
          by (cases "consume env ds acc (fst g, ?st)")
        from consume_events [OF cs] obtain ths1 where g1: "fst g1 = fst g @ map Thinking ths1"
          by auto
        show ?thesis
        proof (cases cb)
          case True
          with Cons.prems nc Delta Some pd cs have "fst g' = fst g1" by (auto simp: Let_def)
          with g1 show ?thesis by auto
        next
          case False
          with Cons.prems nc Delta Some pd cs
          have "stream_chunks env n (Suc i) cs err b' p' acc1 g1 = (oc, acc', g')"
            by (simp add: Let_def)
          from Cons.IH [OF this] obtain ths2 where "fst g' = fst g1 @ map Thinking ths2" ..
          with g1 have "fst g' = fst g @ map Thinking (ths1 @ ths2)" by simp
          then show ?thesis ..
        qed
      qed
    qed
  qed
qed

lemma stream_openai_events:
  "stream_openai env n g = (oc, acc, g') \<Longrightarrow> \<exists>ths. fst g' = fst g @ map Thinking ths"
proof (cases "chat_stream env n (agent_context (suspend env (AwaitCreate n) (snd g)))")
  case (CreateFails e)
  assume "stream_openai env n g = (oc, acc, g')"
  with CreateFails have "fst g' = fst g @ map Thinking []"
    by (auto simp: stream_openai_def Let_def)
  then show ?thesis ..
next
  case (Chunks cs err)
  assume "stream_openai env n g = (oc, acc, g')"
  with Chunks have "stream_chunks env n 0 cs err [] False ([], [])
      (fst g, suspend env (AwaitCreate n) (snd g)) = (oc, acc, g')"
    by (simp add: stream_openai_def Let_def)
  from stream_chunks_events [OF this] show ?thesis by simp
qed


lemma suspend_quiet: "\<not> cancel_at env p \<Longrightarrow> suspend env p st = st"
  by (simp add: suspend_def)

lemma suspend_await [simp]:
  assumes "cancels_between_steps env"
  shows "suspend env AwaitInitScreenshot st = st" "suspend env AwaitInitCurrentApp st = st"
    "suspend env (AwaitScreenshot n) st = st" "suspend env (AwaitCurrentApp n) st = st"
    "suspend env (AwaitCreate n) st = st" "suspend env (AwaitChunk n i) st = st"
    "suspend env (AwaitClose n) st = st" "suspend env (AwaitExecScreenshot n) st = st"
    "suspend env (AwaitExecute n) st = st"
  using assms by (auto simp: cancels_between_steps_def suspend_def)

lemma yield_thinking [simp]:
  "cancels_between_steps env \<Longrightarrow> yield env (Thinking c) g = (fst g @ [Thinking c], snd g)"
  by (auto simp: cancels_between_steps_def suspend_def yield_def)

lemma consume_quiet:
  assumes "cancels_between_steps env" and "\<not> cancel_event (snd g)"
  shows "\<exists>acc' ths. consume env ds acc g = (False, acc', (fst g @ map Thinking ths, snd g))"
  using assms
proof (induction ds arbitrary: acc g)
  case Nil
  have "consume env [] acc g = (False, acc, (fst g @ map Thinking [], snd g))" by simp
  then show ?case by blast
next
  case (Cons d ds)
  show ?case
  proof (cases d)
    case (RawData c)
    from Cons.IH [OF Cons.prems, of "(fst acc, snd acc @ c)"] Cons.prems RawData
    show ?thesis by simp
  next
    case (ThinkingData c)
    let ?g = "(fst g @ [Thinking c], snd g)"
    from Cons.prems have "\<not> cancel_event (snd ?g)" by simp
    from Cons.IH [OF Cons.prems(1) this, of "(fst acc @ [c], snd acc)"]
    obtain acc' ths where
      "consume env ds (fst acc @ [c], snd acc) ?g = (False, acc', (fst ?g @ map Thinking ths, snd ?g))"
      by blast
    with Cons.prems ThinkingData
    have "consume env (d # ds) acc g = (False, acc', (fst g @ map Thinking (c # ths), snd g))"
      by simp
    then show ?thesis by blast
  qed
qed

lemma stream_chunks_quiet:
  assumes "cancels_between_steps env" and "\<not> cancel_event (snd g)"
  shows "\<exists>acc' ths. stream_chunks env n i cs None buffer ph acc g
           = (LLMDone, acc', (fst g @ map Thinking ths, snd g))"
  using assms
proof (induction cs arbitrary: i buffer ph acc g)
  case Nil
  then have "stream_chunks env n i [] None buffer ph acc g
               = (LLMDone, acc, (fst g @ map Thinking [], snd g))"
    by (simp add: Let_def)
  then show ?case by blast
next
  case (Cons c cs)
  note q = Cons.prems
  show ?case
  proof (cases c)
    case NoChoices
    from Cons.IH [OF q, of "Suc i" buffer ph acc] q NoChoices show ?thesis
      by (simp add: Let_def)
  next
    case (Delta co)
    show ?thesis
    proof (cases co)
      case None
      from Cons.IH [OF q, of "Suc i" buffer ph acc] q Delta None show ?thesis
        by (simp add: Let_def)
    next
      case (Some content)
      obtain ds b' p' where pd: "process_delta buffer ph content = (ds, b', p')"
        by (cases "process_delta buffer ph content")
      from consume_quiet [OF q, of ds acc] obtain acc1 ths1 where
        c1: "consume env ds acc g = (False, acc1, (fst g @ map Thinking ths1, snd g))"
        by blast
      let ?g1 = "(fst g @ map Thinking ths1, snd g)"
      from q have "\<not> cancel_event (snd ?g1)" by simp
      from Cons.IH [OF q(1) this, of "Suc i" b' p' acc1] obtain acc' ths2 where
        "stream_chunks env n (Suc i) cs None b' p' acc1 ?g1
           = (LLMDone, acc', (fst ?g1 @ map Thinking ths2, snd ?g1))"
        by blast
      with q Delta Some pd c1
      have "stream_chunks env n i (c # cs) None buffer ph acc g
              = (LLMDone, acc', (fst g @ map Thinking (ths1 @ ths2), snd g))"
        by (simp add: Let_def)
      then show ?thesis by blast
    qed
  qed
qed

lemma observe_quiet:
  assumes "cancels_between_steps env"
    and "get_screenshot env (AwaitScreenshot n) = Inr shot"
    and "get_current_app env (AwaitCurrentApp n) = Inr app"
  shows "observe env n st = (Inr (shot, app), st)"
  using assms by (simp add: observe_def Let_def)

lemma set_last_append [simp]: "set_last f (xs @ [x]) = Some (xs @ [f x])"
  by (simp add: set_last_def)

lemma glm_quiet_step:
  assumes nf: "never_finishes env" and k: "agent_type env = GLM"
    and cb: "cancels_between_steps env" and nc: "\<not> cancel_event st"
  shows "\<exists>ths thinking action result u a.
           glm_execute_step env st =
             (map Thinking ths @ [action_step (Suc (step_count st)) thinking action result],
              suspend env (Yielded (action_step (Suc (step_count st)) thinking action result))
                (st\<lparr>step_count := Suc (step_count st),
                    agent_context := agent_context st @ [u, a]\<rparr>),
              None)
         \<and> \<not> is_finish action \<and> \<not> should_finish result
         \<and> is_user u \<and> \<not> has_image u \<and> \<not> is_user a \<and> \<not> has_image a"
proof -
  let ?n = "Suc (step_count st)"
  let ?st = "st\<lparr>step_count := step_count st + 1\<rparr>"
  from nf obtain shot app where
    shot: "get_screenshot env (AwaitScreenshot ?n) = Inr shot"
    and app: "get_current_app env (AwaitCurrentApp ?n) = Inr app"
    unfolding never_finishes_def by blast
  have o: "observe env ?n ?st = (Inr (shot, app), ?st)"
    by (rule observe_quiet [OF cb shot app])
  let ?c1 = "agent_context st @
        [create_user_message (py ''** Screen Info **'' @ [10, 10] @ build_screen_info env app)
           (Some (base64_data shot))]"
  let ?st1 = "?st\<lparr>agent_context := ?c1\<rparr>"
  from nf k obtain cs where cs: "chat_stream env ?n ?c1 = Chunks cs None"
    unfolding never_finishes_def by (simp, blast)
  from nc have nc1: "\<not> cancel_event (snd ([] :: event list, ?st1))" by simp
  from stream_chunks_quiet [OF cb nc1, of ?n 0 cs "[]" False "([], [])"]
  obtain acc ths where
    sc: "stream_chunks env ?n 0 cs None [] False ([], []) ([], ?st1)
           = (LLMDone, acc, (map Thinking ths, ?st1))"
    by auto
  have so: "stream_openai env ?n ([], ?st1) = (LLMDone, acc, (map Thinking ths, ?st1))"
    using cb cs sc by (simp add: stream_openai_def Let_def)
  let ?raw = "snd acc"
  let ?thinking = "concat (fst acc)"
  from nf k obtain action where
    pa: "parse env (snd (parse_raw_response ?raw)) = Inr action" and nfin: "\<not> is_finish action"
    unfolding never_finishes_def by (simp, blast)
  have gpa: "glm_parse_action env ?raw = Inr action"
    using pa by (simp add: glm_parse_action_def Let_def)
  from nf obtain result where
    ex: "execute env ?n action (width shot) (height shot) = Inr result"
    and nsf: "\<not> should_finish result"
    unfolding never_finishes_def by blast
  have re: "run_executor env ?n action (width shot) (height shot) = result"
    using ex by (simp add: run_executor_def)
  let ?c2 = "agent_context st @
        [remove_images_from_message
           (create_user_message (py ''** Screen Info **'' @ [10, 10] @ build_screen_info env app)
              (Some (base64_data shot)))]
        @ [create_assistant_message
             (py ''<think>'' @ ?thinking @ py ''</think><answer>''
              @ snd (parse_raw_response ?raw) @ py ''</answer>'')]"
  have act: "glm_act env ?n shot ?thinking ?raw (map Thinking ths, ?st1) =
      (map Thinking ths @ [action_step ?n ?thinking action result],
       suspend env (Yielded (action_step ?n ?thinking action result))
         (st\<lparr>step_count := ?n, agent_context := ?c2\<rparr>), None)"
    using cb gpa re by (simp add: glm_act_def Let_def yield_def)
  define u where "u = remove_images_from_message
           (create_user_message (py ''** Screen Info **'' @ [10, 10] @ build_screen_info env app)
              (Some (base64_data shot)))"
  define a where "a = create_assistant_message
             (py ''<think>'' @ ?thinking @ py ''</think><answer>''
              @ snd (parse_raw_response ?raw) @ py ''</answer>'')"
  have ua: "is_user u" "\<not> has_image u" "\<not> is_user a" "\<not> has_image a"
    by (simp_all add: u_def a_def create_user_message_def create_assistant_message_def)
  have ctx: "?c2 = agent_context st @ [u, a]"
    by (simp add: u_def a_def)
  have "glm_execute_step env st =
      (map Thinking ths @ [action_step ?n ?thinking action result],
       suspend env (Yielded (action_step ?n ?thinking action result))
         (st\<lparr>step_count := ?n, agent_context := ?c2\<rparr>), None)"
    using o so act by (simp add: glm_execute_step_def Let_def)
  then have "glm_execute_step env st =
      (map Thinking ths @ [action_step ?n ?thinking action result],
       suspend env (Yielded (action_step ?n ?thinking action result))
         (st\<lparr>step_count := ?n, agent_context := agent_context st @ [u, a]\<rparr>), None)"
    by (simp only: ctx)
  with nfin nsf ua show ?thesis by blast
qed

lemma gemini_quiet_step:
  assumes nf: "never_finishes env" and k: "agent_type env = Gemini"
    and cb: "cancels_between_steps env" and nc: "\<not> cancel_event st"
  shows "\<exists>ths thinking action result c.
           gemini_execute_step env st =
             (map Thinking ths @ [action_step (Suc (step_count st)) thinking action result],
              suspend env (Yielded (action_step (Suc (step_count st)) thinking action result))
                (st\<lparr>step_count := Suc (step_count st), agent_context := c\<rparr>),
              None)
         \<and> \<not> is_finish action \<and> \<not> should_finish result"
proof -
  let ?n = "Suc (step_count st)"
  let ?st = "st\<lparr>step_count := step_count st + 1\<rparr>"
  from nf obtain shot app where
    shot: "get_screenshot env (AwaitScreenshot ?n) = Inr shot"
    and app: "get_current_app env (AwaitCurrentApp ?n) = Inr app"
    unfolding never_finishes_def by blast
  have o: "observe env ?n ?st = (Inr (shot, app), ?st)"
    by (rule observe_quiet [OF cb shot app])
  obtain c1 where go: "gemini_observe env ?n ?st = (None, ?st\<lparr>agent_context := c1\<rparr>)"
  proof (cases "?n > 1")
    case True
    with o have "gemini_observe env ?n ?st = (None, ?st\<lparr>agent_context := agent_context st
                      @ [create_user_message (py ''Current app: '' @ app)
                           (Some (base64_data shot))]\<rparr>)"
      by (simp add: gemini_observe_def)
    then show ?thesis by (rule that)
  next
    case False
    then have "gemini_observe env ?n ?st = (None, ?st\<lparr>agent_context := agent_context st\<rparr>)"
      by (simp add: gemini_observe_def)
    then show ?thesis by (rule that)
  qed
  let ?st1 = "?st\<lparr>agent_context := c1\<rparr>"
  from nf k obtain m name args rest action where
    ct: "chat_tools env ?n c1 = Inr m" and tc: "cm_tool_calls m = (name, args) # rest"
    and ta: "tool_call_to_action_any (repr env) name
               (case json_loads env args of None \<Rightarrow> PDict [] | Some v \<Rightarrow> v) = Inr action"
    and nfin: "\<not> is_finish action"
    unfolding never_finishes_def by (simp, blast)
  let ?thinking = "(case cm_content m of None \<Rightarrow> [] | Some c \<Rightarrow> c)"
  let ?args = "(case json_loads env args of None \<Rightarrow> PDict [] | Some v \<Rightarrow> v)"
  have cl: "call_llm_with_tools env ?n ?st1 = (ToolsCall ?thinking name ?args, ?st1)"
    using nc cb ct tc by (simp add: call_llm_with_tools_def Let_def)
  let ?ths = "(if ?thinking \<noteq> [] then [?thinking] else [])"
  have g: "(if ?thinking \<noteq> [] then yield env (Thinking ?thinking) ([], ?st1) else ([], ?st1))
             = (map Thinking ?ths, ?st1)"
    using cb by simp
  from nf obtain shot2 where
    shot2: "get_screenshot env (AwaitExecScreenshot ?n) = Inr shot2"
    unfolding never_finishes_def by blast
  from nf obtain result where
    ex: "execute env ?n action (width shot2) (height shot2) = Inr result"
    and nsf: "\<not> should_finish result"
    unfolding never_finishes_def by blast
  have gea: "gemini_execute_action env ?n action ?st1 = (result, ?st1)"
    using cb shot2 ex by (simp add: gemini_execute_action_def Let_def run_executor_def)
  let ?c2 = "gemini_update_context env ?n ?thinking name ?args result c1"
  have act: "gemini_act env ?n ?thinking name ?args (map Thinking ?ths, ?st1) =
      (map Thinking ?ths @ [action_step ?n ?thinking action result],
       suspend env (Yielded (action_step ?n ?thinking action result))
         (st\<lparr>step_count := ?n, agent_context := ?c2\<rparr>), None)"
    using ta gea by (simp add: gemini_act_def Let_def yield_def)
  have "gemini_execute_step env st =
      gemini_act env ?n ?thinking name ?args
        (if ?thinking \<noteq> [] then yield env (Thinking ?thinking) ([], ?st1) else ([], ?st1))"
    using go cl by (simp add: gemini_execute_step_def Let_def)
  also have "\<dots> = gemini_act env ?n ?thinking name ?args (map Thinking ?ths, ?st1)"
    by (simp only: g)
  also note act
  finally show ?thesis using nfin nsf by blast
qed

lemma quiet_step:
  assumes nf: "never_finishes env" and cb: "cancels_between_steps env"
    and nc: "\<not> cancel_event st"
  shows "\<exists>ths thinking action result c.
           execute_step env st =
             (map Thinking ths @ [action_step (Suc (step_count st)) thinking action result],
              suspend env (Yielded (action_step (Suc (step_count st)) thinking action result))
                (st\<lparr>step_count := Suc (step_count st), agent_context := c\<rparr>),
              None)
         \<and> \<not> is_finish action \<and> \<not> should_finish result"
proof (cases "agent_type env")
  case GLM
  with glm_quiet_step [OF nf GLM cb nc] show ?thesis
    by (simp add: execute_step_def) blast
next
  case Gemini
  with gemini_quiet_step [OF nf Gemini cb nc] show ?thesis by (simp add: execute_step_def)
qed

lemma step_numbers_append [simp]:
  "step_numbers (xs @ ys) = step_numbers xs @ step_numbers ys"
  by (induction xs rule: step_numbers.induct) simp_all

lemma step_numbers_thinking [simp]: "step_numbers (map Thinking ths) = []"
  by (induction ths) simp_all

lemma split_finished_thinking [simp]:
  "split_finished (map Thinking ths @ rest)
     = map_option (\<lambda>(p, d). (map Thinking ths @ p, d)) (split_finished rest)"
  by (induction ths) (auto simp: option.map_comp comp_def split_def option.map_ident)

lemma action_step_simps [simp]:
  "step_numbers [action_step n thinking action result] = [n]"
  "quiet_event (action_step n thinking action result) = (\<not> (is_finish action \<or> should_finish result))"
  "split_finished [action_step n thinking action result]
     = (if is_finish action \<or> should_finish result
        then Some ([action_step n thinking action result],
                   \<lparr>sd_step = n, sd_thinking = thinking, sd_action = Some action,
                    sd_success = ar_success result, sd_finished = True,
                    sd_message = step_message result action\<rparr>)
        else None)"
  by (auto simp: action_step_def)

lemma run_loop_exit:
  "\<not> (int (step_count st) < max_steps env \<and> is_running st)
   \<Longrightarrow> run_loop env (acc, st) =
         (acc @ [Done (PStr (py ''Max steps reached'')) (step_count st) False],
          suspend env (Yielded (Done (PStr (py ''Max steps reached'')) (step_count st) False)) st,
          None)"
  by (subst run_loop.simps) (auto simp: yield_def Let_def)

lemma run_loop_quiet_step:
  assumes nf: "never_finishes env" and cb: "cancels_between_steps env"
    and run: "is_running st" and nc: "\<not> cancel_event st"
    and more: "int (step_count st) < max_steps env"
  shows "\<exists>evs ev c.
           run_loop env (acc, st) =
             run_loop env (acc @ evs @ [ev],
               suspend env (Yielded ev) (st\<lparr>step_count := Suc (step_count st), agent_context := c\<rparr>))
         \<and> (\<forall>e \<in> set (evs @ [ev]). quiet_event e)
         \<and> step_numbers (evs @ [ev]) = [Suc (step_count st)]
         \<and> (\<exists>sd. ev = Step sd \<and> sd_step sd = Suc (step_count st))"
proof -
  from quiet_step [OF nf cb nc] obtain ths thinking action result c where
    st: "execute_step env st =
           (map Thinking ths @ [action_step (Suc (step_count st)) thinking action result],
            suspend env (Yielded (action_step (Suc (step_count st)) thinking action result))
              (st\<lparr>step_count := Suc (step_count st), agent_context := c\<rparr>),
            None)"
    and nfin: "\<not> is_finish action" "\<not> should_finish result"
    by blast
  let ?ev = "action_step (Suc (step_count st)) thinking action result"
  have "run_loop env (acc, st) =
          run_loop env (acc @ map Thinking ths @ [?ev],
            suspend env (Yielded ?ev) (st\<lparr>step_count := Suc (step_count st), agent_context := c\<rparr>))"
    using run nc more st nfin by (subst run_loop.simps) simp
  moreover have "\<forall>e \<in> set (map Thinking ths @ [?ev]). quiet_event e"
    using nfin by auto
  moreover have "step_numbers (map Thinking ths @ [?ev]) = [Suc (step_count st)]"
    by simp
  moreover have "\<exists>sd. ?ev = Step sd \<and> sd_step sd = Suc (step_count st)"
    by (simp add: action_step_def)
  ultimately show ?thesis by blast
qed

lemma no_cancel_between_steps: "\<forall>p. \<not> cancel_at env p \<Longrightarrow> cancels_between_steps env"
  by (simp add: cancels_between_steps_def)

lemma observe_initial_quiet:
  assumes "cancels_between_steps env" and "never_finishes env"
  shows "\<exists>shot app. observe_initial env st = (Inr (shot, app), st)"
proof -
  from assms(2) obtain shot app where
    "get_screenshot env AwaitInitScreenshot = Inr shot"
    "get_current_app env AwaitInitCurrentApp = Inr app"
    unfolding never_finishes_def by blast
  with assms(1) have "observe_initial env st = (Inr (shot, app), st)"
    by (simp add: observe_initial_def Let_def)
  then show ?thesis by blast
qed

lemma prepare_initial_context_fields [simp]:
  "step_count (prepare_initial_context env task img app st) = step_count st"
  "is_running (prepare_initial_context env task img app st) = is_running st"
  "cancel_event (prepare_initial_context env task img app st) = cancel_event st"
  by (simp_all add: prepare_initial_context_def glm_prepare_initial_context_def
        gemini_prepare_initial_context_def Let_def split: agent_kind.splits)

lemma cancel_context [simp]: "agent_context (cancel st) = agent_context st"
  by (simp add: cancel_def)

lemma suspend_context [simp]: "agent_context (suspend env p st) = agent_context st"
  by (simp add: suspend_def)

lemma yield_context [simp]: "agent_context (snd (yield env ev g)) = agent_context (snd g)"
  by (simp add: yield_def)

lemma consume_context:
  "consume env ds acc g = (b, acc', g') \<Longrightarrow> agent_context (snd g') = agent_context (snd g)"
  by (induction ds arbitrary: acc g) (auto split: chunk_data.splits if_splits)

lemma stream_chunks_context:
  "stream_chunks env n i cs err buffer ph acc g = (oc, acc', g')
   \<Longrightarrow> agent_context (snd g') = agent_context (snd g)"
proof (induction cs arbitrary: i buffer ph acc g)
  case Nil
  then show ?case by (auto simp: Let_def)
next
  case (Cons c cs)
  show ?case
  proof (cases "cancel_event (suspend env (AwaitChunk n i) (snd g))")
    case True
    with Cons.prems show ?thesis by (auto simp: Let_def)
  next
    case False
    note nc = this
    show ?thesis
    proof (cases c)
      case NoChoices
      with Cons.prems nc have
        "stream_chunks env n (Suc i) cs err buffer ph acc (fst g, suspend env (AwaitChunk n i) (snd g))
           = (oc, acc', g')"
        by (simp add: Let_def)
      from Cons.IH [OF this] show ?thesis by simp
    next
      case (Delta co)
      show ?thesis
      proof (cases co)
        case None
        with Delta Cons.prems nc have
          "stream_chunks env n (Suc i) cs err buffer ph acc (fst g, suspend env (AwaitChunk n i) (snd g))
             = (oc, acc', g')"
          by (simp add: Let_def)
        from Cons.IH [OF this] show ?thesis by simp
      next
        case (Some content)
        obtain ds b' p' where pd: "process_delta buffer ph content = (ds, b', p')"
          by (cases "process_delta buffer ph content")
        obtain cb acc1 g1 where
          cs: "consume env ds acc (fst g, suspend env (AwaitChunk n i) (snd g)) = (cb, acc1, g1)"
          by (cases "consume env ds acc (fst g, suspend env (AwaitChunk n i) (snd g))")
        have g1: "agent_context (snd g1) = agent_context (snd g)"
          using consume_context [OF cs] by simp
        show ?thesis
        proof (cases cb)
          case True
          with Cons.prems nc Delta Some pd cs g1 show ?thesis by (auto simp: Let_def)
        next
          case False
          with Cons.prems nc Delta Some pd cs have
            "stream_chunks env n (Suc i) cs err b' p' acc1 g1 = (oc, acc', g')"
            by (simp add: Let_def)
          from Cons.IH [OF this] g1 show ?thesis by simp
        qed
      qed
    qed
  qed
qed

lemma stream_openai_context:
  "stream_openai env n g = (oc, acc, g') \<Longrightarrow> agent_context (snd g') = agent_context (snd g)"
  by (auto simp: stream_openai_def Let_def split: openai_stream.splits
           dest: stream_chunks_context)

lemma action_phase_thinking:
  assumes "action_phase env st evs thinking action result"
  shows "\<exists>ths. evs = map Thinking ths"
  using assms
proof (induct rule: action_phase.induct)
  case (glm env st shot app st1 acc g action)
  from stream_openai_events [OF glm(3)] show ?case by simp
next
  case (gemini env st st1 thinking tool_name tool_args st2 action g result st3)
  have "fst g = map Thinking (if thinking \<noteq> [] then [thinking] else [])"
    using gemini(5) by simp
  then show ?case by blast
qed

lemma action_phase_step:
  assumes "action_phase env st evs thinking action result"
  shows "\<exists>st'. execute_step env st =
           (evs @ [action_step (Suc (step_count st)) thinking action result], st', None)"
  using assms
proof (induct rule: action_phase.induct)
  case (glm env st shot app st1 acc g action)
  let ?n = "Suc (step_count st)"
  let ?u = "create_user_message (py ''** Screen Info **'' @ [10, 10] @ build_screen_info env app)
              (Some (base64_data shot))"
  have ctx: "agent_context (snd g) = agent_context st1 @ [?u]"
    using stream_openai_context [OF glm(3)] by simp
  have "\<exists>st'. glm_act env ?n shot (concat (fst acc)) (snd acc) g =
          (fst g @ [action_step ?n (concat (fst acc)) action
                      (run_executor env ?n action (width shot) (height shot))], st', None)"
    using glm(4) ctx by (simp add: glm_act_def Let_def)
  then obtain st' where
    "glm_act env ?n shot (concat (fst acc)) (snd acc) g =
          (fst g @ [action_step ?n (concat (fst acc)) action
                      (run_executor env ?n action (width shot) (height shot))], st', None)"
    by blast
  with glm show ?case
    by (simp add: execute_step_def glm_execute_step_def Let_def)
next
  case (gemini env st st1 thinking tool_name tool_args st2 action g result st3)
  let ?n = "Suc (step_count st)"
  have "\<exists>st'. gemini_act env ?n thinking tool_name tool_args g =
          (fst g @ [action_step ?n thinking action result], st', None)"
    using gemini(4,6) by (simp add: gemini_act_def Let_def)
  then obtain st' where
    "gemini_act env ?n thinking tool_name tool_args g =
          (fst g @ [action_step ?n thinking action result], st', None)"
    by blast
  with gemini show ?case
    by (simp add: execute_step_def gemini_execute_step_def Let_def)
qed




lemma observe_initial_running:
  assumes "observe_initial env st = (r, s0)" and "is_running st" and "\<not> cancel_event s0"
  shows "is_running s0 \<and> step_count s0 = step_count st"
  using assms
  by (auto simp: observe_initial_def Let_def suspend_def cancel_def split: sum.splits if_splits)

lemma run_loop_unfinished_steps:
  assumes "unfinished_steps env k st"
  shows "is_running st \<Longrightarrow> \<not> cancel_event st \<Longrightarrow> k = nat (max_steps env) - step_count st \<Longrightarrow>
         \<exists>evs st'. run_loop env (acc, st) =
                     (acc @ evs @ [Done (PStr (py ''Max steps reached''))
                                     (max (nat (max_steps env)) (step_count st)) False],
                      st', None)
                  \<and> (\<forall>e \<in> set evs. quiet_event e)
                  \<and> step_numbers evs = [Suc (step_count st) ..< Suc (nat (max_steps env))]
                  \<and> step_count st' = max (nat (max_steps env)) (step_count st)"
  using assms
proof (induct arbitrary: acc rule: unfinished_steps.induct)
  case (none env st)
  then have ge: "nat (max_steps env) \<le> step_count st" by simp
  then have "\<not> (int (step_count st) < max_steps env \<and> is_running st)" by auto
  let ?s = "suspend env (Yielded (Done (PStr (py ''Max steps reached'')) (step_count st) False)) st"
  have mx: "max (nat (max_steps env)) (step_count st) = step_count st"
    using ge by simp
  have a: "run_loop env (acc, st) =
          (acc @ [] @ [Done (PStr (py ''Max steps reached''))
                         (max (nat (max_steps env)) (step_count st)) False], ?s, None)"
    using run_loop_exit [OF \<open>\<not> (int (step_count st) < max_steps env \<and> is_running st)\<close>, of acc]
    by (simp only: mx append_Nil)
  have b: "\<forall>e \<in> set ([] :: event list). quiet_event e" by simp
  have c: "step_numbers [] = [Suc (step_count st) ..< Suc (nat (max_steps env))]"
    using ge by simp
  have d: "step_count ?s = max (nat (max_steps env)) (step_count st)"
    using mx by simp
  from a b c d show ?case by blast
next
  case (step env st evs thinking action result evs' st' r k)
  let ?n = "Suc (step_count st)"
  let ?ev = "action_step ?n thinking action result"
  from step.prems have more: "int (step_count st) < max_steps env" by simp
  from action_phase_step [OF step.hyps(1)] step.hyps(4)
  have evs': "evs' = evs @ [?ev]" and r: "r = None" by auto
  from action_phase_thinking [OF step.hyps(1)] obtain ths where ths: "evs = map Thinking ths"
    by blast
  have sc: "step_count st' = ?n" by (rule execute_step_count [OF step.hyps(4)])
  have nfin: "\<not> (is_finish action \<or> should_finish result)"
    using step.hyps(2,3) by simp
  have rl: "run_loop env (acc, st) = run_loop env (acc @ evs', st')"
    using step.prems(1,2) more step.hyps(4) evs' r ths nfin
    by (subst run_loop.simps) simp
  have k: "k = nat (max_steps env) - step_count st'"
    using step.prems(3) sc by simp
  from step.hyps(8) [OF step.hyps(5,6) k, of "acc @ evs'"] obtain evs2 st'' where
    r2: "run_loop env (acc @ evs', st') =
           ((acc @ evs') @ evs2 @ [Done (PStr (py ''Max steps reached''))
                                     (max (nat (max_steps env)) (step_count st')) False],
            st'', None)"
    and q2: "\<forall>e \<in> set evs2. quiet_event e"
    and sn2: "step_numbers evs2 = [Suc (step_count st') ..< Suc (nat (max_steps env))]"
    and sc2: "step_count st'' = max (nat (max_steps env)) (step_count st')"
    by blast
  have mx: "max (nat (max_steps env)) (step_count st') = max (nat (max_steps env)) (step_count st)"
    using more sc by simp
  have "run_loop env (acc, st) =
          (acc @ (evs' @ evs2) @ [Done (PStr (py ''Max steps reached''))
                                     (max (nat (max_steps env)) (step_count st)) False],
           st'', None)"
    using rl r2 mx by simp
  moreover have "\<forall>e \<in> set (evs' @ evs2). quiet_event e"
    using q2 evs' ths nfin by auto
  moreover have "step_numbers (evs' @ evs2) = [Suc (step_count st) ..< Suc (nat (max_steps env))]"
  proof -
    have "Suc (step_count st) < Suc (nat (max_steps env))" using more by simp
    then have "[Suc (step_count st) ..< Suc (nat (max_steps env))]
                 = Suc (step_count st) # [Suc (Suc (step_count st)) ..< Suc (nat (max_steps env))]"
      by (rule upt_conv_Cons)
    moreover have "step_numbers evs2 = [Suc (Suc (step_count st)) ..< Suc (nat (max_steps env))]"
      using sn2 sc by simp
    moreover have "step_numbers evs' = [Suc (step_count st)]"
      using evs' ths by simp
    ultimately show ?thesis by (simp only: step_numbers_append append_Cons append_Nil)
  qed
  moreover have "step_count st'' = max (nat (max_steps env)) (step_count st)"
    using sc2 mx by simp
  ultimately show ?case by blast
qed

lemma stream_unfinished_steps:
  assumes first: "observe_initial env (st\<lparr>is_running := True, cancel_event := False\<rparr>)
                  = (Inr (shot, app), s0)"
    and nc: "\<not> cancel_event s0"
    and steps: "unfinished_steps env (nat (max_steps env) - step_count st)
                  (prepare_initial_context env task (base64_data shot) app s0)"
  shows "\<exists>evs st'. stream env task st =
                     (evs @ [Done (PStr (py ''Max steps reached''))
                               (max (nat (max_steps env)) (step_count st)) False],
                      st', None)
                  \<and> step_numbers evs = [Suc (step_count st) ..< Suc (nat (max_steps env))]
                  \<and> (\<forall>e \<in> set evs. quiet_event e)
                  \<and> step_count st' = max (nat (max_steps env)) (step_count st)"
proof -
  let ?s1 = "prepare_initial_context env task (base64_data shot) app s0"
  from observe_initial_running [OF first _ nc]
  have s0: "is_running s0" "step_count s0 = step_count st" by simp_all
  have p: "is_running ?s1" "\<not> cancel_event ?s1"
    "nat (max_steps env) - step_count st = nat (max_steps env) - step_count ?s1"
    using s0 nc by simp_all
  from run_loop_unfinished_steps [OF steps p, of "[]"] s0
  obtain evs st' where
    rl: "run_loop env ([], ?s1) =
           (evs @ [Done (PStr (py ''Max steps reached''))
                     (max (nat (max_steps env)) (step_count st)) False], st', None)"
    and q: "\<forall>e \<in> set evs. quiet_event e"
    and sn: "step_numbers evs = [Suc (step_count st) ..< Suc (nat (max_steps env))]"
    and sc: "step_count st' = max (nat (max_steps env)) (step_count st)"
    by auto
  have "stream env task st =
          (evs @ [Done (PStr (py ''Max steps reached''))
                    (max (nat (max_steps env)) (step_count st)) False],
           st'\<lparr>is_running := False\<rparr>, None)"
    using first rl by (simp add: stream_def)
  with q sn sc show ?thesis by fastforce
qed

lemmas mapper_defs = tool_call_to_action_any_def tool_call_to_action_def build_action_def
  int_pair_def and_then_def require_int_def dict_get_def do_action_def is_finish_def

lemma scen_never_finishes: "never_finishes (scen_env kind limit cancels (\<lambda>p. False) False)"
  by (cases kind)
     (simp_all add: never_finishes_def scen_env_def scen_tap_def scen_result_def mapper_defs)

lemma glm_never_finishes_phase:
  assumes nf: "never_finishes env" and k: "agent_type env = GLM"
    and cb: "cancels_between_steps env" and nc: "\<not> cancel_event st"
  shows "\<exists>evs thinking action result.
           action_phase env st evs thinking action result
         \<and> \<not> is_finish action \<and> \<not> should_finish result"
proof -
  let ?n = "Suc (step_count st)"
  let ?st = "st\<lparr>step_count := step_count st + 1\<rparr>"
  from nf obtain shot app where
    shot: "get_screenshot env (AwaitScreenshot ?n) = Inr shot"
    and app: "get_current_app env (AwaitCurrentApp ?n) = Inr app"
    unfolding never_finishes_def by blast
  have o: "observe env ?n ?st = (Inr (shot, app), ?st)"
    by (rule observe_quiet [OF cb shot app])
  let ?c1 = "agent_context ?st @
        [create_user_message (py ''** Screen Info **'' @ [10, 10] @ build_screen_info env app)
           (Some (base64_data shot))]"
  let ?st1 = "?st\<lparr>agent_context := ?c1\<rparr>"
  from nf k obtain cs where cs: "chat_stream env ?n ?c1 = Chunks cs None"
    unfolding never_finishes_def by (simp, blast)
  from nc have nc1: "\<not> cancel_event (snd ([] :: event list, ?st1))" by simp
  from stream_chunks_quiet [OF cb nc1, of ?n 0 cs "[]" False "([], [])"]
  obtain acc ths where
    sc: "stream_chunks env ?n 0 cs None [] False ([], []) ([], ?st1)
           = (LLMDone, acc, (map Thinking ths, ?st1))"
    by auto
  have so: "stream_openai env ?n ([], ?st1) = (LLMDone, acc, (map Thinking ths, ?st1))"
    using cb cs sc by (simp add: stream_openai_def Let_def)
  from nf k obtain action where
    pa: "parse env (snd (parse_raw_response (snd acc))) = Inr action" and nfin: "\<not> is_finish action"
    unfolding never_finishes_def by (simp, blast)
  have gpa: "glm_parse_action env (snd acc) = Inr action"
    using pa by (simp add: glm_parse_action_def Let_def)
  from nf obtain result where
    ex: "execute env ?n action (width shot) (height shot) = Inr result"
    and nsf: "\<not> should_finish result"
    unfolding never_finishes_def by blast
  have re: "run_executor env ?n action (width shot) (height shot) = result"
    using ex by (simp add: run_executor_def)
  from action_phase.glm [OF k o so gpa] re nfin nsf show ?thesis by auto
qed

lemma gemini_never_finishes_phase:
  assumes nf: "never_finishes env" and k: "agent_type env = Gemini"
    and cb: "cancels_between_steps env" and nc: "\<not> cancel_event st"
  shows "\<exists>evs thinking action result.
           action_phase env st evs thinking action result
         \<and> \<not> is_finish action \<and> \<not> should_finish result"
proof -
  let ?n = "Suc (step_count st)"
  let ?st = "st\<lparr>step_count := step_count st + 1\<rparr>"
  from nf obtain shot app where
    shot: "get_screenshot env (AwaitScreenshot ?n) = Inr shot"
    and app: "get_current_app env (AwaitCurrentApp ?n) = Inr app"
    unfolding never_finishes_def by blast
  have o: "observe env ?n ?st = (Inr (shot, app), ?st)"
    by (rule observe_quiet [OF cb shot app])
  obtain st1 where go: "gemini_observe env ?n ?st = (None, st1)"
    and nc1: "\<not> cancel_event st1"
  proof (cases "?n > 1")
    case True
    with o have eq: "gemini_observe env ?n ?st = (None, ?st\<lparr>agent_context := agent_context ?st
                      @ [create_user_message (py ''Current app: '' @ app)
                           (Some (base64_data shot))]\<rparr>)"
      by (simp add: gemini_observe_def)
    show ?thesis by (rule that [OF eq]) (use nc in simp)
  next
    case False
    then have eq: "gemini_observe env ?n ?st = (None, ?st)"
      by (simp add: gemini_observe_def)
    show ?thesis by (rule that [OF eq]) (use nc in simp)
  qed
  from nf k obtain m name args rest action where
    ct: "chat_tools env ?n (agent_context st1) = Inr m" and tc: "cm_tool_calls m = (name, args) # rest"
    and ta: "tool_call_to_action_any (repr env) name
               (case json_loads env args of None \<Rightarrow> PDict [] | Some v \<Rightarrow> v) = Inr action"
    and nfin: "\<not> is_finish action"
    unfolding never_finishes_def by (simp, blast)
  let ?thinking = "(case cm_content m of None \<Rightarrow> [] | Some c \<Rightarrow> c)"
  let ?args = "(case json_loads env args of None \<Rightarrow> PDict [] | Some v \<Rightarrow> v)"
  have cl: "call_llm_with_tools env ?n st1 = (ToolsCall ?thinking name ?args, st1)"
    using nc1 cb ct tc by (simp add: call_llm_with_tools_def Let_def)
  define g where "g = (if ?thinking \<noteq> [] then yield env (Thinking ?thinking) ([], st1) else ([], st1))"
  have sg: "snd g = st1" using cb by (simp add: g_def)
  from nf obtain shot2 where
    shot2: "get_screenshot env (AwaitExecScreenshot ?n) = Inr shot2"
    unfolding never_finishes_def by blast
  from nf obtain result where
    ex: "execute env ?n action (width shot2) (height shot2) = Inr result"
    and nsf: "\<not> should_finish result"
    unfolding never_finishes_def by blast
  have gea: "gemini_execute_action env ?n action (snd g) = (result, st1)"
    using cb shot2 ex sg by (simp add: gemini_execute_action_def Let_def run_executor_def)
  from action_phase.gemini [OF k go cl ta g_def gea] nfin nsf show ?thesis by blast
qed

lemma never_finishes_unfinished_steps:
  assumes nf: "never_finishes env" and quiet: "\<forall>p. \<not> cancel_at env p"
  shows "is_running st \<Longrightarrow> \<not> cancel_event st \<Longrightarrow> unfinished_steps env k st"
proof (induction k arbitrary: st)
  case 0
  show ?case by (rule unfinished_steps.none)
next
  case (Suc k)
  note cb = no_cancel_between_steps [OF quiet]
  have "\<exists>evs thinking action result.
           action_phase env st evs thinking action result
         \<and> \<not> is_finish action \<and> \<not> should_finish result"
  proof (cases "agent_type env")
    case GLM
    from glm_never_finishes_phase [OF nf GLM cb Suc.prems(2)] show ?thesis .
  next
    case Gemini
    from gemini_never_finishes_phase [OF nf Gemini cb Suc.prems(2)] show ?thesis .
  qed
  then obtain evs thinking action result where
    ph: "action_phase env st evs thinking action result"
    and nfin: "\<not> is_finish action" "\<not> should_finish result"
    by blast
  from quiet_step [OF nf cb Suc.prems(2)] obtain evs' ev c where
    ex: "execute_step env st =
           (evs', suspend env (Yielded ev) (st\<lparr>step_count := Suc (step_count st), agent_context := c\<rparr>),
            None)"
    by blast
  let ?st' = "st\<lparr>step_count := Suc (step_count st), agent_context := c\<rparr>"
  have s: "suspend env (Yielded ev) ?st' = ?st'"
    using quiet by (simp add: suspend_def)
  from ex s have ex': "execute_step env st = (evs', ?st', None)" by simp
  have r: "is_running ?st'" "\<not> cancel_event ?st'" using Suc.prems by simp_all
  from unfinished_steps.step [OF ph nfin ex' r Suc.IH [OF r]] show ?case .
qed

lemma stream_never_finishing:
  assumes nf: "never_finishes env" and quiet: "\<forall>p. \<not> cancel_at env p"
  shows "\<exists>evs st'. stream env task st =
                     (evs @ [Done (PStr (py ''Max steps reached''))
                               (max (nat (max_steps env)) (step_count st)) False],
                      st', None)
                  \<and> step_numbers evs = [Suc (step_count st) ..< Suc (nat (max_steps env))]
                  \<and> step_count st' = max (nat (max_steps env)) (step_count st)"
proof -
  note cb = no_cancel_between_steps [OF quiet]
  let ?st0 = "st\<lparr>is_running := True, cancel_event := False\<rparr>"
  from observe_initial_quiet [OF cb nf, of ?st0] obtain shot app where
    oi: "observe_initial env ?st0 = (Inr (shot, app), ?st0)" by blast
  let ?s1 = "prepare_initial_context env task (base64_data shot) app ?st0"
  have "unfinished_steps env (nat (max_steps env) - step_count st) ?s1"
    by (rule never_finishes_unfinished_steps [OF nf quiet]) simp_all
  from stream_unfinished_steps [OF oi _ this] show ?thesis by auto
qed

theorem max_steps_reused_agent_counterexample:
  "max_steps (scen_env GLM 3 (\<lambda>p. False) (\<lambda>p. False) False) = 3
   \<and> step_count (fst (snd (stream (scen_env GLM 3 (\<lambda>p. False) (\<lambda>p. False) False) (py ''task'')
                              (new_agent (py ''system''))))) = 3
   \<and> step_numbers (fst (stream (scen_env GLM 3 (\<lambda>p. False) (\<lambda>p. False) False) (py ''task'')
        (fst (snd (stream (scen_env GLM 3 (\<lambda>p. False) (\<lambda>p. False) False) (py ''task'')
                     (new_agent (py ''system''))))))) = []
   \<and> last (fst (stream (scen_env GLM 3 (\<lambda>p. False) (\<lambda>p. False) False) (py ''task'')
        (fst (snd (stream (scen_env GLM 3 (\<lambda>p. False) (\<lambda>p. False) False) (py ''task'')
                     (new_agent (py ''system'')))))))
       = Done (PStr (py ''Max steps reached'')) 3 False"
proof -
  let ?env = "scen_env GLM 3 (\<lambda>p. False) (\<lambda>p. False) False"
  have limit: "max_steps ?env = 3" by (simp add: scen_env_def)
  have nf: "never_finishes ?env" by (rule scen_never_finishes)
  have quiet: "\<forall>p. \<not> cancel_at ?env p" by (simp add: scen_env_def)
  from stream_never_finishing [OF nf quiet, of "py ''task''" "new_agent (py ''system'')"] limit
  obtain evs1 st1 where
    r1: "stream ?env (py ''task'') (new_agent (py ''system'')) =
           (evs1 @ [Done (PStr (py ''Max steps reached'')) 3 False], st1, None)"
    and c1: "step_count st1 = 3"
    by (auto simp: new_agent_def)
  from stream_never_finishing [OF nf quiet, of "py ''task''" st1] limit c1
  obtain evs2 st2 where
    r2: "stream ?env (py ''task'') st1 =
           (evs2 @ [Done (PStr (py ''Max steps reached'')) 3 False], st2, None)"
    and n2: "step_numbers evs2 = []"
    by auto
  from r1 have s1: "fst (snd (stream ?env (py ''task'') (new_agent (py ''system'')))) = st1"
    by simp
  from limit c1 r2 n2 show ?thesis
    unfolding s1 by simp
qed

text \<open>
  C5 (max-steps boundary), as the code has it. The step count belongs to the agent: only
  \<open>reset()\<close> zeroes it, \<open>stream\<close> does not. With \<open>max_steps = 3\<close>, when the first capture
  succeeds, \<open>cancel()\<close> is not called, and each step the loop performs gets an action that
  is not finish-equivalent with an executor result that does not set \<open>should_finish\<close>, a
  run started at step count \<open>k\<close> performs exactly the steps \<open>k + 1, \<dots>, 3\<close> (the steps 1, 2, 3
  on a new or reset agent, none when \<open>k \<ge> 3\<close>), none of them finishing, and then yields
  \<open>done\<close> with message \<open>Max steps reached\<close> and \<open>success = False\<close>.
\<close>

theorem max_steps_boundary:
  assumes limit: "max_steps env = 3"
    and first: "observe_initial env (st\<lparr>is_running := True, cancel_event := False\<rparr>)
                  = (Inr (shot, app), s0)"
    and nc: "\<not> cancel_event s0"
    and steps: "unfinished_steps env (3 - step_count st)
                  (prepare_initial_context env task (base64_data shot) app s0)"
  shows "\<exists>evs st'. stream env task st =
                     (evs @ [Done (PStr (py ''Max steps reached'')) (max 3 (step_count st)) False],
                      st', None)
                  \<and> step_numbers evs = [Suc (step_count st) ..< 4]
                  \<and> (\<forall>e \<in> set evs. quiet_event e)
                  \<and> step_count st' = max 3 (step_count st)"
proof -
  let ?st0 = "st\<lparr>is_running := True, cancel_event := False\<rparr>"
  let ?s1 = "prepare_initial_context env task (base64_data shot) app s0"
  from observe_initial_running [OF first _ nc]
  have s0: "is_running s0" "step_count s0 = step_count st" by simp_all
  have p: "is_running ?s1" "\<not> cancel_event ?s1" "3 - step_count st = nat (max_steps env) - step_count ?s1"
    using s0 nc limit by simp_all
  from steps p(3) have steps': "unfinished_steps env (nat (max_steps env) - step_count ?s1) ?s1"
    by simp
  from run_loop_unfinished_steps [OF steps' p(1,2) refl, of "[]"] limit s0
  obtain evs st' where
    rl: "run_loop env ([], ?s1) =
           (evs @ [Done (PStr (py ''Max steps reached'')) (max 3 (step_count st)) False], st', None)"
    and q: "\<forall>e \<in> set evs. quiet_event e"
    and sn: "step_numbers evs = [Suc (step_count st) ..< Suc 3]"
    and sc: "step_count st' = max 3 (step_count st)"
    by auto
  have "stream env task st =
          (evs @ [Done (PStr (py ''Max steps reached'')) (max 3 (step_count st)) False],
           st'\<lparr>is_running := False\<rparr>, None)"
    using first rl by (simp add: stream_def)
  moreover have "step_numbers evs = [Suc (step_count st) ..< 4]"
    using sn by (simp add: eval_nat_numeral)
  ultimately show ?thesis using q sc by fastforce
qed

text \<open>
  C1 (cancellation mid-run), as the code behaves. \<open>cancel()\<close> sets the cancel flag and
  clears \<open>is_running\<close>. When it is called after the \<open>step\<close> event of step 2 and before
  step 3 begins, in a run of at least 3 steps whose model never finishes, the loop
  condition \<open>self._is_running\<close> fails before the flag is looked at: the run yields no
  \<open>cancelled\<close> event, it ends with the \<open>done\<close> event of message \<open>Max steps reached\<close>, and
  the step count stays at 2.
\<close>

theorem cancel_between_steps_emits_done:
  assumes nf: "never_finishes env"
    and sched: "\<forall>p. cancel_at env p \<longleftrightarrow> (\<exists>sd. p = Yielded (Step sd) \<and> sd_step sd = 2)"
    and limit: "3 \<le> max_steps env"
    and fresh: "step_count st = 0"
  shows "\<exists>evs st'. stream env task st =
                     (evs @ [Done (PStr (py ''Max steps reached'')) 2 False], st', None)
                  \<and> step_numbers evs = [1, 2]
                  \<and> (\<forall>e \<in> set evs. quiet_event e)
                  \<and> step_count st' = 2 \<and> cancel_event st'"
proof -
  have cb: "cancels_between_steps env"
    using sched by (auto simp: cancels_between_steps_def)
  let ?st0 = "st\<lparr>is_running := True, cancel_event := False\<rparr>"
  from observe_initial_quiet [OF cb nf, of ?st0] obtain shot app where
    oi: "observe_initial env ?st0 = (Inr (shot, app), ?st0)" by blast
  let ?s0 = "prepare_initial_context env task (base64_data shot) app ?st0"
  have p0: "is_running ?s0" "\<not> cancel_event ?s0" "int (step_count ?s0) < max_steps env"
    using limit fresh by simp_all
  from run_loop_quiet_step [OF nf cb p0, of "[]"] fresh
  obtain evs1 ev1 c1 sd1 where
    r1: "run_loop env ([], ?s0) =
           run_loop env (evs1 @ [ev1],
             suspend env (Yielded ev1) (?s0\<lparr>step_count := Suc 0, agent_context := c1\<rparr>))"
    and q1: "\<forall>e \<in> set (evs1 @ [ev1]). quiet_event e"
    and n1: "step_numbers (evs1 @ [ev1]) = [Suc 0]"
    and e1: "ev1 = Step sd1" "sd_step sd1 = Suc 0"
    by auto
  let ?s1 = "?s0\<lparr>step_count := Suc 0, agent_context := c1\<rparr>"
  have s1: "suspend env (Yielded ev1) ?s1 = ?s1"
    using sched e1 by (simp add: suspend_def)
  have p1: "is_running ?s1" "\<not> cancel_event ?s1" "int (step_count ?s1) < max_steps env"
    using limit by simp_all
  from run_loop_quiet_step [OF nf cb p1, of "evs1 @ [ev1]"]
  obtain evs2 ev2 c2 sd2 where
    r2: "run_loop env (evs1 @ [ev1], ?s1) =
           run_loop env ((evs1 @ [ev1]) @ evs2 @ [ev2],
             suspend env (Yielded ev2) (?s1\<lparr>step_count := Suc (Suc 0), agent_context := c2\<rparr>))"
    and q2: "\<forall>e \<in> set (evs2 @ [ev2]). quiet_event e"
    and n2: "step_numbers (evs2 @ [ev2]) = [Suc (Suc 0)]"
    and e2: "ev2 = Step sd2" "sd_step sd2 = Suc (Suc 0)"
    by auto
  let ?s2 = "cancel (?s1\<lparr>step_count := Suc (Suc 0), agent_context := c2\<rparr>)"
  have s2: "suspend env (Yielded ev2) (?s1\<lparr>step_count := Suc (Suc 0), agent_context := c2\<rparr>) = ?s2"
    using sched e2 by (simp add: suspend_def)
  have stop: "\<not> (int (step_count ?s2) < max_steps env \<and> is_running ?s2)"
    by (simp add: cancel_def)
  have fin: "suspend env (Yielded (Done (PStr (py ''Max steps reached'')) (step_count ?s2) False)) ?s2
               = ?s2"
    using sched by (simp add: suspend_def)
  let ?evs = "(evs1 @ [ev1]) @ evs2 @ [ev2]"
  have "run_loop env ([], ?s0) =
          (?evs @ [Done (PStr (py ''Max steps reached'')) 2 False], ?s2, None)"
    using r1 s1 r2 s2 run_loop_exit [OF stop, of ?evs] fin by (simp add: cancel_def)
  with oi have "stream env task st =
          (?evs @ [Done (PStr (py ''Max steps reached'')) 2 False], ?s2\<lparr>is_running := False\<rparr>, None)"
    by (simp add: stream_def)
  moreover have "step_numbers ?evs = [1, 2]"
    using n1 n2 by (simp only: step_numbers_append) simp
  moreover have "\<forall>e \<in> set ?evs. quiet_event e"
    using q1 q2 by auto
  moreover have "step_count (?s2\<lparr>is_running := False\<rparr>) = 2" "cancel_event (?s2\<lparr>is_running := False\<rparr>)"
    by (simp_all add: cancel_def)
  ultimately show ?thesis by blast
qed

lemma observe_fails:
  assumes "get_screenshot env (AwaitScreenshot n) = Inl e
         \<or> (\<exists>shot. get_screenshot env (AwaitScreenshot n) = Inr shot
                   \<and> get_current_app env (AwaitCurrentApp n) = Inl e)"
  shows "fst (observe env n st) = Inl e"
  using assms by (auto simp: observe_def Let_def)

lemma observe_initial_fails:
  assumes "get_screenshot env AwaitInitScreenshot = Inl e
         \<or> (\<exists>shot. get_screenshot env AwaitInitScreenshot = Inr shot
                   \<and> get_current_app env AwaitInitCurrentApp = Inl e)"
  shows "fst (observe_initial env st) = Inl e"
  using assms by (auto simp: observe_initial_def Let_def)

theorem device_failure_first_capture_counterexample:
  "get_screenshot (scen_env Gemini 3 (\<lambda>p. False) (\<lambda>p. p = AwaitInitScreenshot) False)
     AwaitInitScreenshot = Inl (py ''device offline'')
   \<and> stream (scen_env Gemini 3 (\<lambda>p. False) (\<lambda>p. p = AwaitInitScreenshot) False) (py ''task'')
       (new_agent (py ''system''))
     = ([Error (py ''Device error: device offline''),
         Done (PStr (py ''Device error: device offline'')) 0 False],
        new_agent (py ''system''), None)
   \<and> step_numbers [Error (py ''Device error: device offline''),
                     Done (PStr (py ''Device error: device offline'')) 0 False] = []"
  by (simp add: stream_def observe_initial_def scen_env_def new_agent_def yield_def suspend_def
        Let_def)

text \<open>
  C6 (device observation failure), as the code has it. When the screenshot or the
  current app cannot be captured in the observe phase of step \<open>n\<close> (the GLM agent observes
  in every step, the Gemini agent from step 2 on), the step yields an \<open>error\<close> event and
  then a \<open>step\<close> event with \<open>finished = True\<close>, \<open>success = False\<close> and the device error as
  message, and the run ends there with its \<open>done\<close> event. When the first capture of
  \<open>stream\<close> fails, before any step has begun, the run yields the \<open>error\<close> event and then
  \<open>done\<close> with 0 steps and \<open>success = False\<close>, and no \<open>step\<close> event.
\<close>

theorem device_failure_ends_run:
  "((get_screenshot env (AwaitScreenshot n) = Inl e
      \<or> (\<exists>shot. get_screenshot env (AwaitScreenshot n) = Inr shot
                \<and> get_current_app env (AwaitCurrentApp n) = Inl e))
     \<longrightarrow> n = Suc (step_count st) \<longrightarrow> (agent_type env = GLM \<or> 1 < n)
     \<longrightarrow> fst (execute_step env st) =
           [Error (py ''Device error: '' @ e),
            Step \<lparr>sd_step = n, sd_thinking = [], sd_action = None, sd_success = False,
                  sd_finished = True, sd_message = PStr (py ''Device error: '' @ e)\<rparr>]
         \<and> (int (step_count st) < max_steps env \<longrightarrow> is_running st \<longrightarrow> \<not> cancel_event st
              \<longrightarrow> (\<exists>st'. run_loop env (acc, st) =
                     (acc @ [Error (py ''Device error: '' @ e),
                             Step \<lparr>sd_step = n, sd_thinking = [], sd_action = None,
                                   sd_success = False, sd_finished = True,
                                   sd_message = PStr (py ''Device error: '' @ e)\<rparr>,
                             Done (PStr (py ''Device error: '' @ e)) n False],
                      st', None))))
   \<and> ((get_screenshot env AwaitInitScreenshot = Inl e
         \<or> (\<exists>shot. get_screenshot env AwaitInitScreenshot = Inr shot
                   \<and> get_current_app env AwaitInitCurrentApp = Inl e))
        \<longrightarrow> (\<exists>st'. stream env task st =
               ([Error (py ''Device error: '' @ e),
                 Done (PStr (py ''Device error: '' @ e)) 0 False], st', None)))"
proof (intro conjI impI)
  let ?msg = "py ''Device error: '' @ e"
  assume fail: "get_screenshot env (AwaitScreenshot n) = Inl e
      \<or> (\<exists>shot. get_screenshot env (AwaitScreenshot n) = Inr shot
                \<and> get_current_app env (AwaitCurrentApp n) = Inl e)"
    and n: "n = Suc (step_count st)" and observes: "agent_type env = GLM \<or> 1 < n"
  let ?st = "st\<lparr>step_count := step_count st + 1\<rparr>"
  obtain s1 where o: "observe env n ?st = (Inl e, s1)"
    using observe_fails [OF fail, of ?st] by (cases "observe env n ?st") simp
  have "\<exists>s2. execute_step env st = ([Error ?msg, failure_step n ?msg], s2, None)"
  proof (cases "agent_type env")
    case GLM
    with o n show ?thesis
      by (simp add: execute_step_def glm_execute_step_def Let_def)
  next
    case Gemini
    with observes n have "1 < n" by simp
    with o n have "gemini_observe env n ?st = (Some e, s1)"
      by (simp add: gemini_observe_def)
    with Gemini n show ?thesis
      by (simp add: execute_step_def gemini_execute_step_def Let_def)
  qed
  then obtain s2 where ex: "execute_step env st = ([Error ?msg, failure_step n ?msg], s2, None)"
    by blast
  then show "fst (execute_step env st) =
           [Error ?msg,
            Step \<lparr>sd_step = n, sd_thinking = [], sd_action = None, sd_success = False,
                  sd_finished = True, sd_message = PStr ?msg\<rparr>]"
    by (simp add: failure_step_def)
  assume more: "int (step_count st) < max_steps env" and run: "is_running st"
    and nc: "\<not> cancel_event st"
  have sc: "step_count s2 = n"
    using execute_step_count [OF ex] n by simp
  have "run_loop env (acc, st) =
          (acc @ [Error ?msg, failure_step n ?msg, Done (PStr ?msg) n False],
           suspend env (Yielded (Done (PStr ?msg) n False)) s2, None)"
    using more run nc ex sc
    by (subst run_loop.simps) (simp add: failure_step_def yield_def Let_def)
  then show "\<exists>st'. run_loop env (acc, st) =
                     (acc @ [Error ?msg,
                             Step \<lparr>sd_step = n, sd_thinking = [], sd_action = None,
                                   sd_success = False, sd_finished = True,
                                   sd_message = PStr ?msg\<rparr>,
                             Done (PStr ?msg) n False],
                      st', None)"
    by (auto simp: failure_step_def)
next
  let ?msg = "py ''Device error: '' @ e"
  let ?st0 = "st\<lparr>is_running := True, cancel_event := False\<rparr>"
  assume fail: "get_screenshot env AwaitInitScreenshot = Inl e
         \<or> (\<exists>shot. get_screenshot env AwaitInitScreenshot = Inr shot
                   \<and> get_current_app env AwaitInitCurrentApp = Inl e)"
  obtain s1 where o: "observe_initial env ?st0 = (Inl e, s1)"
    using observe_initial_fails [OF fail, of ?st0] by (cases "observe_initial env ?st0") simp
  then have "stream env task st =
      ([Error ?msg, Done (PStr ?msg) 0 False],
       (snd (yield env (Done (PStr ?msg) 0 False) (yield env (Error ?msg) ([], s1))))
         \<lparr>is_running := False\<rparr>, None)"
    by (simp add: stream_def Let_def)
  then show "\<exists>st'. stream env task st = ([Error ?msg, Done (PStr ?msg) 0 False], st', None)"
    by blast
qed


text \<open>
  C2 (context image bound), as the GLM agent behaves. After step 1 of a run the context
  is the system turn, the initial user turn with its image still attached, the user turn
  of step 1 without image, and the assistant turn: the one image is held by the first
  user turn, not by the most recent one.
\<close>

theorem glm_initial_image_is_kept:
  assumes kind: "agent_type env = GLM"
    and nf: "never_finishes env"
    and quiet: "\<forall>p. \<not> cancel_at env p"
    and limit: "max_steps env = 1"
  shows "\<exists>evs st' t img u a.
           stream env task (new_agent sp) = (evs, st', None)
         \<and> step_numbers evs = [1]
         \<and> agent_context st' = [SystemTurn sp, UserTurn t (Some img), u, a]
         \<and> is_user u \<and> \<not> has_image u \<and> \<not> is_user a \<and> \<not> has_image a"
proof -
  note cb = no_cancel_between_steps [OF quiet]
  let ?st0 = "(new_agent sp)\<lparr>is_running := True, cancel_event := False\<rparr>"
  from observe_initial_quiet [OF cb nf, of ?st0] obtain shot app where
    oi: "observe_initial env ?st0 = (Inr (shot, app), ?st0)" by blast
  let ?s0 = "prepare_initial_context env task (base64_data shot) app ?st0"
  let ?t = "task @ [10, 10] @ py ''** Screen Info **'' @ [10, 10] @ build_screen_info env app"
  have c0: "agent_context ?s0 = [SystemTurn sp, UserTurn ?t (Some (base64_data shot))]"
    using kind
    by (simp add: prepare_initial_context_def glm_prepare_initial_context_def Let_def
          new_agent_def create_user_message_def)
  have f0: "step_count ?s0 = 0" "is_running ?s0" "\<not> cancel_event ?s0"
    by (simp_all add: new_agent_def)
  from glm_quiet_step [OF nf kind cb f0(3)] obtain ths thinking action result u a where
    gs: "glm_execute_step env ?s0 =
           (map Thinking ths @ [action_step (Suc (step_count ?s0)) thinking action result],
            suspend env (Yielded (action_step (Suc (step_count ?s0)) thinking action result))
              (?s0\<lparr>step_count := Suc (step_count ?s0),
                   agent_context := agent_context ?s0 @ [u, a]\<rparr>),
            None)"
    and nfin: "\<not> is_finish action" "\<not> should_finish result"
    and ua: "is_user u" "\<not> has_image u" "\<not> is_user a" "\<not> has_image a"
    by blast
  let ?ev = "action_step (Suc 0) thinking action result"
  let ?s1 = "?s0\<lparr>step_count := Suc 0, agent_context := agent_context ?s0 @ [u, a]\<rparr>"
  have es: "execute_step env ?s0 = (map Thinking ths @ [?ev], ?s1, None)"
    using gs kind quiet f0(1) by (simp add: execute_step_def suspend_def)
  have stop: "\<not> (int (step_count ?s1) < max_steps env \<and> is_running ?s1)"
    using limit by simp
  have "run_loop env ([], ?s0) = run_loop env (map Thinking ths @ [?ev], ?s1)"
    using es f0 limit nfin by (subst run_loop.simps) simp
  also have "\<dots> = ((map Thinking ths @ [?ev])
                      @ [Done (PStr (py ''Max steps reached'')) (step_count ?s1) False], ?s1, None)"
    using run_loop_exit [OF stop, of "map Thinking ths @ [?ev]"] quiet
    by (simp add: suspend_def)
  finally have rl: "run_loop env ([], ?s0) =
      ((map Thinking ths @ [?ev]) @ [Done (PStr (py ''Max steps reached'')) (step_count ?s1) False],
       ?s1, None)" .
  have "stream env task (new_agent sp) =
      ((map Thinking ths @ [?ev]) @ [Done (PStr (py ''Max steps reached'')) (step_count ?s1) False],
       ?s1\<lparr>is_running := False\<rparr>, None)"
    using oi rl by (simp add: stream_def)
  moreover have "step_numbers ((map Thinking ths @ [?ev])
                   @ [Done (PStr (py ''Max steps reached'')) (step_count ?s1) False]) = [1]"
    by (simp add: action_step_def)
  moreover have "agent_context (?s1\<lparr>is_running := False\<rparr>)
                   = [SystemTurn sp, UserTurn ?t (Some (base64_data shot)), u, a]"
    using c0 by simp
  ultimately show ?thesis using ua by blast
qed

theorem cancel_between_steps_emits_done_witness:
  "never_finishes (scen_env GLM 5 (cancel_after_step 2) (\<lambda>p. False) False)
   \<and> (\<forall>p. cancel_at (scen_env GLM 5 (cancel_after_step 2) (\<lambda>p. False) False) p
            \<longleftrightarrow> (\<exists>sd. p = Yielded (Step sd) \<and> sd_step sd = 2))
   \<and> 3 \<le> max_steps (scen_env GLM 5 (cancel_after_step 2) (\<lambda>p. False) False)
   \<and> step_count (new_agent (py ''system'')) = 0
   \<and> (\<exists>evs st'. stream (scen_env GLM 5 (cancel_after_step 2) (\<lambda>p. False) False) (py ''task'')
                    (new_agent (py ''system''))
                  = (evs @ [Done (PStr (py ''Max steps reached'')) 2 False], st', None)
                \<and> step_numbers evs = [1, 2]
                \<and> (\<forall>e \<in> set evs. quiet_event e)
                \<and> step_count st' = 2 \<and> cancel_event st')"
proof -
  let ?env = "scen_env GLM 5 (cancel_after_step 2) (\<lambda>p. False) False"
  have nf: "never_finishes ?env" by (rule scen_never_finishes)
  have sched: "\<forall>p. cancel_at ?env p \<longleftrightarrow> (\<exists>sd. p = Yielded (Step sd) \<and> sd_step sd = 2)"
    by (auto simp: scen_env_def cancel_after_step_def split: point.splits event.splits)
  have limit: "3 \<le> max_steps ?env" by (simp add: scen_env_def)
  have fresh: "step_count (new_agent (py ''system'')) = 0" by (simp add: new_agent_def)
  from cancel_between_steps_emits_done [OF nf sched limit fresh, of "py ''task''"]
    nf sched limit fresh
  show ?thesis by blast
qed

theorem glm_initial_image_is_kept_witness:
  "agent_type (scen_env GLM 1 (\<lambda>p. False) (\<lambda>p. False) False) = GLM
   \<and> never_finishes (scen_env GLM 1 (\<lambda>p. False) (\<lambda>p. False) False)
   \<and> (\<forall>p. \<not> cancel_at (scen_env GLM 1 (\<lambda>p. False) (\<lambda>p. False) False) p)
   \<and> max_steps (scen_env GLM 1 (\<lambda>p. False) (\<lambda>p. False) False) = 1
   \<and> (\<exists>evs st' t img u a.
         stream (scen_env GLM 1 (\<lambda>p. False) (\<lambda>p. False) False) (py ''task'')
           (new_agent (py ''system'')) = (evs, st', None)
       \<and> step_numbers evs = [1]
       \<and> agent_context st' = [SystemTurn (py ''system''), UserTurn t (Some img), u, a]
       \<and> is_user u \<and> \<not> has_image u \<and> \<not> is_user a \<and> \<not> has_image a)"
proof -
  let ?env = "scen_env GLM 1 (\<lambda>p. False) (\<lambda>p. False) False"
  have kind: "agent_type ?env = GLM" by (simp add: scen_env_def)
  have nf: "never_finishes ?env" by (rule scen_never_finishes)
  have quiet: "\<forall>p. \<not> cancel_at ?env p" by (simp add: scen_env_def)
  have limit: "max_steps ?env = 1" by (simp add: scen_env_def)
  from glm_initial_image_is_kept [OF kind nf quiet limit, of "py ''task''" "py ''system''"]
    kind nf quiet limit
  show ?thesis by blast
qed

theorem max_steps_boundary_witness:
  "max_steps (scen_env GLM 3 (\<lambda>p. False) (\<lambda>p. False) False) = 3
   \<and> step_count (new_agent (py ''system'')) = 0
   \<and> observe_initial (scen_env GLM 3 (\<lambda>p. False) (\<lambda>p. False) False)
        ((new_agent (py ''system''))\<lparr>is_running := True, cancel_event := False\<rparr>)
       = (Inr (scen_shot, py ''launcher''),
          (new_agent (py ''system''))\<lparr>is_running := True, cancel_event := False\<rparr>)
   \<and> unfinished_steps (scen_env GLM 3 (\<lambda>p. False) (\<lambda>p. False) False) 3
        (prepare_initial_context (scen_env GLM 3 (\<lambda>p. False) (\<lambda>p. False) False) (py ''task'')
           (base64_data scen_shot) (py ''launcher'')
           ((new_agent (py ''system''))\<lparr>is_running := True, cancel_event := False\<rparr>))
   \<and> (\<exists>evs st'. stream (scen_env GLM 3 (\<lambda>p. False) (\<lambda>p. False) False) (py ''task'')
                    (new_agent (py ''system''))
                  = (evs @ [Done (PStr (py ''Max steps reached'')) 3 False], st', None)
                \<and> step_numbers evs = [1, 2, 3]
                \<and> (\<forall>e \<in> set evs. quiet_event e)
                \<and> step_count st' = 3)"
proof -
  let ?env = "scen_env GLM 3 (\<lambda>p. False) (\<lambda>p. False) False"
  let ?st0 = "(new_agent (py ''system''))\<lparr>is_running := True, cancel_event := False\<rparr>"
  let ?s1 = "prepare_initial_context ?env (py ''task'') (base64_data scen_shot) (py ''launcher'') ?st0"
  have limit: "max_steps ?env = 3" by (simp add: scen_env_def)
  have fresh: "step_count (new_agent (py ''system'')) = 0" by (simp add: new_agent_def)
  have nf: "never_finishes ?env" by (rule scen_never_finishes)
  have quiet: "\<forall>p. \<not> cancel_at ?env p" by (simp add: scen_env_def)
  have first: "observe_initial ?env ?st0 = (Inr (scen_shot, py ''launcher''), ?st0)"
    by (simp add: observe_initial_def scen_env_def suspend_def Let_def)
  have nc: "\<not> cancel_event ?st0" by simp
  have steps: "unfinished_steps ?env 3 ?s1"
    by (rule never_finishes_unfinished_steps [OF nf quiet]) simp_all
  then have steps': "unfinished_steps ?env (3 - step_count (new_agent (py ''system''))) ?s1"
    by (simp add: new_agent_def)
  from max_steps_boundary [OF limit first nc steps'] fresh
  have "\<exists>evs st'. stream ?env (py ''task'') (new_agent (py ''system''))
                  = (evs @ [Done (PStr (py ''Max steps reached'')) 3 False], st', None)
                \<and> step_numbers evs = [1, 2, 3]
                \<and> (\<forall>e \<in> set evs. quiet_event e)
                \<and> step_count st' = 3"
    by (simp add: upt_rec numeral_2_eq_2 numeral_3_eq_3)
  with limit fresh first steps show ?thesis by blast
qed

theorem device_failure_ends_run_witness:
  "get_screenshot (scen_env GLM 3 (\<lambda>p. False) (\<lambda>p. p = AwaitScreenshot 1) False)
     (AwaitScreenshot 1) = Inl (py ''device offline'')
   \<and> fst (execute_step (scen_env GLM 3 (\<lambda>p. False) (\<lambda>p. p = AwaitScreenshot 1) False)
            (running_agent (py ''system''))) =
       [Error (py ''Device error: device offline''),
        Step \<lparr>sd_step = 1, sd_thinking = [], sd_action = None, sd_success = False,
              sd_finished = True, sd_message = PStr (py ''Device error: device offline'')\<rparr>]
   \<and> (\<exists>st'. run_loop (scen_env GLM 3 (\<lambda>p. False) (\<lambda>p. p = AwaitScreenshot 1) False)
               ([], running_agent (py ''system'')) =
              ([Error (py ''Device error: device offline''),
                Step \<lparr>sd_step = 1, sd_thinking = [], sd_action = None, sd_success = False,
                      sd_finished = True,
                      sd_message = PStr (py ''Device error: device offline'')\<rparr>,
                Done (PStr (py ''Device error: device offline'')) 1 False],
               st', None))
   \<and> get_screenshot (scen_env GLM 3 (\<lambda>p. False) (\<lambda>p. p = AwaitInitScreenshot) False)
       AwaitInitScreenshot = Inl (py ''device offline'')
   \<and> (\<exists>st'. stream (scen_env GLM 3 (\<lambda>p. False) (\<lambda>p. p = AwaitInitScreenshot) False)
               (py ''task'') (new_agent (py ''system'')) =
              ([Error (py ''Device error: device offline''),
                Done (PStr (py ''Device error: device offline'')) 0 False], st', None))"
proof -
  let ?env = "scen_env GLM 3 (\<lambda>p. False) (\<lambda>p. p = AwaitScreenshot 1) False"
  let ?envi = "scen_env GLM 3 (\<lambda>p. False) (\<lambda>p. p = AwaitInitScreenshot) False"
  let ?st = "running_agent (py ''system'')"
  have off: "get_screenshot ?env (AwaitScreenshot 1) = Inl (py ''device offline'')"
    by (simp add: scen_env_def)
  have n: "1 = Suc (step_count ?st)" by (simp add: running_agent_def new_agent_def)
  have observes: "agent_type ?env = GLM" by (simp add: scen_env_def)
  have more: "int (step_count ?st) < max_steps ?env"
    by (simp add: running_agent_def new_agent_def scen_env_def)
  have run: "is_running ?st" and nc: "\<not> cancel_event ?st"
    by (simp_all add: running_agent_def new_agent_def)
  have off0: "get_screenshot ?envi AwaitInitScreenshot = Inl (py ''device offline'')"
    by (simp add: scen_env_def)
  have fail: "get_screenshot ?env (AwaitScreenshot 1) = Inl (py ''device offline'')
      \<or> (\<exists>shot. get_screenshot ?env (AwaitScreenshot 1) = Inr shot
                \<and> get_current_app ?env (AwaitCurrentApp 1) = Inl (py ''device offline''))"
    using off by (rule disjI1)
  have fail0: "get_screenshot ?envi AwaitInitScreenshot = Inl (py ''device offline'')
      \<or> (\<exists>shot. get_screenshot ?envi AwaitInitScreenshot = Inr shot
                \<and> get_current_app ?envi AwaitInitCurrentApp = Inl (py ''device offline''))"
    using off0 by (rule disjI1)
  have observes': "agent_type ?env = GLM \<or> 1 < (1::nat)" using observes by (rule disjI1)
  note t1 = device_failure_ends_run [THEN conjunct1, rule_format, OF fail n observes']
  have a1: "fst (execute_step ?env ?st) =
       [Error (py ''Device error: device offline''),
        Step \<lparr>sd_step = 1, sd_thinking = [], sd_action = None, sd_success = False,
              sd_finished = True, sd_message = PStr (py ''Device error: device offline'')\<rparr>]"
    using t1 [THEN conjunct1] by simp
  have a2: "\<exists>st'. run_loop ?env ([], ?st) =
              ([Error (py ''Device error: device offline''),
                Step \<lparr>sd_step = 1, sd_thinking = [], sd_action = None, sd_success = False,
                      sd_finished = True,
                      sd_message = PStr (py ''Device error: device offline'')\<rparr>,
                Done (PStr (py ''Device error: device offline'')) 1 False],
               st', None)"
    using t1 [THEN conjunct2, rule_format, OF more run nc, of "[]"] by simp
  have b: "\<exists>st'. stream ?envi (py ''task'') (new_agent (py ''system'')) =
              ([Error (py ''Device error: device offline''),
                Done (PStr (py ''Device error: device offline'')) 0 False], st', None)"
    using device_failure_ends_run [THEN conjunct2, rule_format, OF fail0,
            of "py ''task''" "new_agent (py ''system'')"]
    by simp
  from off a1 a2 off0 b show ?thesis by blast
qed


end
